theory Spec2Isabelle
  imports Main
begin

section \<open>Data model\<close>

text \<open>
  The marketplace keeps its listings in the table \<^verbatim>\<open>products\<close> of the schema migration.
  Identifiers are opaque: a value of type \<open>uuid\<close> stands for a syntactically valid UUID, so
  the validator \<^verbatim>\<open>isUUID\<close> holds by typing. Timestamps are points of an abstract clock
  (on the wire they are non-empty ISO strings, hence truthy in JavaScript). Prices are
  counted in hundredths, the scale of \<^verbatim>\<open>numeric(10, 2)\<close>.
\<close>

type_synonym uuid = nat
type_synonym timestamp = nat

record product =
  pid :: uuid
  user_id :: uuid
  category_id :: uuid
  title :: string
  description :: string
  price :: int
  status :: string
  condition :: string
  location :: string
  views :: int
  featured :: bool
  created_at :: timestamp
  updated_at :: timestamp
  sold_at :: "timestamp option"

text \<open>The columns of \<^verbatim>\<open>product_images\<close> that the handlers write.\<close>

record product_image =
  product_id :: uuid
  image_url :: string
  display_order :: nat
  is_primary :: bool

text \<open>
  The database: the two tables above and the keys of \<^verbatim>\<open>categories\<close> and \<^verbatim>\<open>profiles\<close>,
  which the foreign keys of \<^verbatim>\<open>products\<close> refer to.
\<close>

record db =
  products :: "product list"
  product_images :: "product_image list"
  categories :: "uuid list"
  profiles :: "uuid list"

section \<open>The data store: constraints and row-level security\<close>

text \<open>
  A store client carries a credential. The request-scoped client carries the caller's
  token; the module-level client \<^verbatim>\<open>supabase\<close> is created in \<^verbatim>\<open>config/supabase.js\<close>, a file
  that is missing, so its credential is a parameter of every handler that uses it.
  A service key bypasses row-level security, the anonymous key has no \<^verbatim>\<open>auth.uid()\<close>.
\<close>

datatype credential = ServiceKey | AnonKey | UserToken uuid

fun auth_uid :: "credential \<Rightarrow> uuid option" where
  "auth_uid (UserToken u) = Some u"
| "auth_uid ServiceKey = None"
| "auth_uid AnonKey = None"

text \<open>
  Modelled from the spec: \<^verbatim>\<open>getSupabaseClient\<close> of \<^verbatim>\<open>config/supabase.js\<close> is missing; the
  spec describes it as the request-scoped Data Store handle parameterised by the caller's
  session token, so that row-level security applies with \<^verbatim>\<open>auth.uid()\<close> the caller's id.
  The token is represented by the user it authenticates.
\<close>

definition getSupabaseClient :: "uuid \<Rightarrow> credential" where
  "getSupabaseClient token = UserToken token"

text \<open>
  The policies on \<^verbatim>\<open>products\<close>. The select policy is the one of the later migration
  (all roles); insert, update and delete are granted \<^verbatim>\<open>TO authenticated\<close> only, which the
  comparison with \<^verbatim>\<open>auth.uid()\<close> already excludes for the anonymous key.
\<close>

definition products_select_using :: "credential \<Rightarrow> product \<Rightarrow> bool" where
  "products_select_using c p \<longleftrightarrow> status p = ''active'' \<or> auth_uid c = Some (user_id p)"

definition products_insert_check :: "credential \<Rightarrow> product \<Rightarrow> bool" where
  "products_insert_check c p \<longleftrightarrow> auth_uid c = Some (user_id p)"

definition products_update_using :: "credential \<Rightarrow> product \<Rightarrow> bool" where
  "products_update_using c p \<longleftrightarrow> auth_uid c = Some (user_id p)"

definition products_update_check :: "credential \<Rightarrow> product \<Rightarrow> bool" where
  "products_update_check c p \<longleftrightarrow> auth_uid c = Some (user_id p)"

definition products_delete_using :: "credential \<Rightarrow> product \<Rightarrow> bool" where
  "products_delete_using c p \<longleftrightarrow> auth_uid c = Some (user_id p)"

definition images_insert_check :: "credential \<Rightarrow> db \<Rightarrow> product_image \<Rightarrow> bool" where
  "images_insert_check c d i \<longleftrightarrow>
     list_ex (\<lambda>p. pid p = product_id i \<and> auth_uid c = Some (user_id p)) (products d)"

definition permits :: "credential \<Rightarrow> bool \<Rightarrow> bool" where
  "permits c policy \<longleftrightarrow> c = ServiceKey \<or> policy"

text \<open>The column constraints of \<^verbatim>\<open>CREATE TABLE products\<close>.\<close>

definition statuses :: "string list" where
  "statuses = [''draft'', ''active'', ''sold'', ''archived'']"

definition conditions :: "string list" where
  "conditions = [''new'', ''like_new'', ''good'', ''fair'', ''poor'']"

definition products_check :: "product \<Rightarrow> bool" where
  "products_check p \<longleftrightarrow>
     0 \<le> price p \<and> status p \<in> set statuses \<and> condition p \<in> set conditions"

definition in_range :: "product \<Rightarrow> bool" where
  "in_range p \<longleftrightarrow>
     price p < 10 ^ 10 \<and> - (2 ^ 31) \<le> views p \<and> views p < 2 ^ 31"

definition products_fkey :: "db \<Rightarrow> product \<Rightarrow> bool" where
  "products_fkey d p \<longleftrightarrow> user_id p \<in> set (profiles d) \<and> category_id p \<in> set (categories d)"

datatype store_error =
    Rls_violation
  | Check_violation
  | Fkey_violation
  | Unique_violation
  | Out_of_range
  | Unknown_column
  | Not_null_violation
  | Not_single_row
  | Bad_range

text \<open>
  What a statement's new rows are checked against: the first failure aborts the whole
  statement. \<open>rows\<close> is the table as the statement would leave it.
\<close>

definition row_violation ::
  "bool \<Rightarrow> db \<Rightarrow> product list \<Rightarrow> product \<Rightarrow> store_error option" where
  "row_violation with_check d rows p =
     (if \<not> in_range p then Some Out_of_range
      else if \<not> with_check then Some Rls_violation
      else if \<not> products_check p then Some Check_violation
      else if length (filter (\<lambda>q. pid q = pid p) rows) \<noteq> 1 then Some Unique_violation
      else if \<not> products_fkey d p then Some Fkey_violation
      else None)"

fun first_violation :: "('a \<Rightarrow> store_error option) \<Rightarrow> 'a list \<Rightarrow> store_error option" where
  "first_violation f [] = None"
| "first_violation f (x # xs) = (case f x of Some e \<Rightarrow> Some e | None \<Rightarrow> first_violation f xs)"

section \<open>The data store: statements\<close>

text \<open>
  The filters a handler chains onto a query. \<^verbatim>\<open>Or_ilike s\<close> is the filter string
  \<^verbatim>\<open>or(title.ilike.%s%,description.ilike.%s%)\<close>; how that string is read is the store's
  business, so its meaning is the parameter \<open>ilike\<close>.
\<close>

datatype cond =
    Eq_id uuid
  | Eq_user_id uuid
  | Eq_status string
  | Eq_category_id uuid
  | Eq_condition string
  | Gte_price int
  | Lte_price int
  | Or_ilike string

fun holds :: "(string \<Rightarrow> product \<Rightarrow> bool) \<Rightarrow> cond \<Rightarrow> product \<Rightarrow> bool" where
  "holds ilike (Eq_id i) p \<longleftrightarrow> pid p = i"
| "holds ilike (Eq_user_id u) p \<longleftrightarrow> user_id p = u"
| "holds ilike (Eq_status s) p \<longleftrightarrow> status p = s"
| "holds ilike (Eq_category_id c) p \<longleftrightarrow> category_id p = c"
| "holds ilike (Eq_condition c) p \<longleftrightarrow> condition p = c"
| "holds ilike (Gte_price x) p \<longleftrightarrow> x \<le> price p"
| "holds ilike (Lte_price x) p \<longleftrightarrow> price p \<le> x"
| "holds ilike (Or_ilike s) p \<longleftrightarrow> ilike s p"

definition matches :: "(string \<Rightarrow> product \<Rightarrow> bool) \<Rightarrow> cond list \<Rightarrow> product \<Rightarrow> bool" where
  "matches ilike conds p \<longleftrightarrow> list_all (\<lambda>k. holds ilike k p) conds"

text \<open>
  The filters on \<^verbatim>\<open>id\<close> and \<^verbatim>\<open>user_id\<close> need no \<open>ilike\<close>.
\<close>

definition no_ilike :: "string \<Rightarrow> product \<Rightarrow> bool" where
  "no_ilike s p \<longleftrightarrow> False"

text \<open>\<^verbatim>\<open>select\<close>: the rows the select policy shows to the client and the filters keep.\<close>

definition select_products ::
  "credential \<Rightarrow> (string \<Rightarrow> product \<Rightarrow> bool) \<Rightarrow> cond list \<Rightarrow> db \<Rightarrow> product list" where
  "select_products c ilike conds d =
     filter (\<lambda>p. permits c (products_select_using c p) \<and> matches ilike conds p) (products d)"

text \<open>
  \<^verbatim>\<open>.single()\<close> wants exactly one row and \<^verbatim>\<open>.maybeSingle()\<close> at most one; otherwise the
  client reports an error.
\<close>

fun single :: "'a list \<Rightarrow> store_error + 'a" where
  "single [x] = Inr x"
| "single xs = Inl Not_single_row"

fun maybeSingle :: "'a list \<Rightarrow> store_error + 'a option" where
  "maybeSingle [] = Inr None"
| "maybeSingle [x] = Inr (Some x)"
| "maybeSingle xs = Inl Not_single_row"

text \<open>
  The object given to \<^verbatim>\<open>update\<close>: every column may be present or absent (\<open>None\<close>). The
  nullable column \<^verbatim>\<open>sold_at\<close> may be present with the value \<^verbatim>\<open>null\<close> (\<open>Some None\<close>).
  \<open>upd_unknown\<close> lists the keys that are no column of the table.
\<close>

record updates =
  upd_id :: "uuid option"
  upd_user_id :: "uuid option"
  upd_category_id :: "uuid option"
  upd_title :: "string option"
  upd_description :: "string option"
  upd_price :: "int option"
  upd_status :: "string option"
  upd_condition :: "string option"
  upd_location :: "string option"
  upd_views :: "int option"
  upd_featured :: "bool option"
  upd_created_at :: "timestamp option"
  upd_updated_at :: "timestamp option"
  upd_sold_at :: "timestamp option option"
  upd_unknown :: "string list"

definition no_updates :: updates where
  "no_updates = \<lparr> upd_id = None, upd_user_id = None, upd_category_id = None,
     upd_title = None, upd_description = None, upd_price = None, upd_status = None,
     upd_condition = None, upd_location = None, upd_views = None, upd_featured = None,
     upd_created_at = None, upd_updated_at = None, upd_sold_at = None, upd_unknown = [] \<rparr>"

fun patch :: "'a option \<Rightarrow> 'a \<Rightarrow> 'a" where
  "patch None old = old"
| "patch (Some v) old = v"

definition set_columns :: "updates \<Rightarrow> product \<Rightarrow> product" where
  "set_columns u p = p\<lparr>
     pid := patch (upd_id u) (pid p),
     user_id := patch (upd_user_id u) (user_id p),
     category_id := patch (upd_category_id u) (category_id p),
     title := patch (upd_title u) (title p),
     description := patch (upd_description u) (description p),
     price := patch (upd_price u) (price p),
     status := patch (upd_status u) (status p),
     condition := patch (upd_condition u) (condition p),
     location := patch (upd_location u) (location p),
     views := patch (upd_views u) (views p),
     featured := patch (upd_featured u) (featured p),
     created_at := patch (upd_created_at u) (created_at p),
     updated_at := patch (upd_updated_at u) (updated_at p),
     sold_at := patch (upd_sold_at u) (sold_at p) \<rparr>"

text \<open>The trigger \<^verbatim>\<open>update_products_updated_at\<close>, run before every row update.\<close>

definition update_updated_at_column :: "timestamp \<Rightarrow> product \<Rightarrow> product" where
  "update_updated_at_column now new = new\<lparr>updated_at := now\<rparr>"

definition new_row :: "timestamp \<Rightarrow> updates \<Rightarrow> product \<Rightarrow> product" where
  "new_row now u p = update_updated_at_column now (set_columns u p)"

text \<open>
  \<^verbatim>\<open>update(u)\<close> with filters: the rows that match the filters and pass the \<^verbatim>\<open>USING\<close>
  clause of the update policy are rewritten (the others are silently left alone); every
  new row must pass \<^verbatim>\<open>WITH CHECK\<close> and the table constraints, and the rows of
  \<^verbatim>\<open>product_images\<close> must still refer to a product. On success the statement returns the
  new rows. (A row that passes the update policy also passes the select policy, which
  the statement needs for its \<^verbatim>\<open>WHERE\<close>.)
\<close>

definition update_products ::
  "credential \<Rightarrow> timestamp \<Rightarrow> updates \<Rightarrow> cond list \<Rightarrow> db \<Rightarrow> store_error + (product list \<times> db)" where
  "update_products c now u conds d =
     (let target = (\<lambda>p. matches no_ilike conds p \<and> permits c (products_update_using c p));
          rows = map (\<lambda>p. if target p then new_row now u p else p) (products d);
          new = map (new_row now u) (filter target (products d))
      in if upd_unknown u \<noteq> [] then Inl Unknown_column
         else case first_violation
                (\<lambda>p. row_violation (permits c (products_update_check c p)) d rows p) new of
           Some e \<Rightarrow> Inl e
         | None \<Rightarrow>
             if new \<noteq> [] \<and> \<not> list_all (\<lambda>i. product_id i \<in> pid ` set rows) (product_images d)
             then Inl Fkey_violation
             else Inr (new, d\<lparr>products := rows\<rparr>))"

text \<open>
  \<^verbatim>\<open>update(u)...select().single()\<close>: when the statement does not return exactly one row the
  client reports an error and the request leaves the table as it was.
\<close>

definition update_single ::
  "credential \<Rightarrow> timestamp \<Rightarrow> updates \<Rightarrow> cond list \<Rightarrow> db \<Rightarrow> store_error + (product \<times> db)" where
  "update_single c now u conds d =
     (case update_products c now u conds d of
        Inl e \<Rightarrow> Inl e
      | Inr (new, d') \<Rightarrow> (case single new of Inl e \<Rightarrow> Inl e | Inr p \<Rightarrow> Inr (p, d')))"

text \<open>
  \<^verbatim>\<open>delete()\<close> with filters removes the matching rows that pass the delete policy; the
  images of a removed product go with it (\<^verbatim>\<open>ON DELETE CASCADE\<close>).
\<close>

definition delete_products :: "credential \<Rightarrow> cond list \<Rightarrow> db \<Rightarrow> store_error + db" where
  "delete_products c conds d =
     (let target = (\<lambda>p. matches no_ilike conds p \<and> permits c (products_delete_using c p));
          gone = map pid (filter target (products d))
      in Inr (d\<lparr> products := filter (\<lambda>p. \<not> target p) (products d),
                 product_images := filter (\<lambda>i. product_id i \<notin> set gone) (product_images d) \<rparr>))"

text \<open>
  The object the create handler inserts: a key whose value is \<^verbatim>\<open>undefined\<close> is not sent
  (\<open>None\<close>). Columns without a value take their defaults, and a \<^verbatim>\<open>NOT NULL\<close> column
  without value and default fails the statement:
  \<^verbatim>\<open>id\<close> from \<^verbatim>\<open>gen_random_uuid()\<close> (the parameter \<open>new_id\<close>), \<^verbatim>\<open>views 0\<close>,
  \<^verbatim>\<open>featured false\<close>, \<^verbatim>\<open>created_at\<close> and \<^verbatim>\<open>updated_at\<close> \<^verbatim>\<open>now()\<close>, \<^verbatim>\<open>sold_at\<close> null,
  \<^verbatim>\<open>status 'draft'\<close>, \<^verbatim>\<open>condition 'good'\<close>. The inserted row is returned
  (\<^verbatim>\<open>.select().single()\<close>), which the select policy must allow.
\<close>

record insert_row =
  ins_user_id :: "uuid option"
  ins_title :: "string option"
  ins_description :: "string option"
  ins_price :: "int option"
  ins_category_id :: "uuid option"
  ins_condition :: "string option"
  ins_location :: "string option"
  ins_status :: "string option"

definition with_defaults :: "timestamp \<Rightarrow> uuid \<Rightarrow> insert_row \<Rightarrow> product option" where
  "with_defaults now new_id r =
     (case (ins_user_id r, ins_category_id r, ins_title r, ins_description r, ins_price r,
            ins_location r) of
        (Some u, Some c, Some t, Some de, Some pr, Some l) \<Rightarrow> Some \<lparr>
          pid = new_id,
          user_id = u,
          category_id = c,
          title = t,
          description = de,
          price = pr,
          status = (case ins_status r of Some s \<Rightarrow> s | None \<Rightarrow> ''draft''),
          condition = (case ins_condition r of Some k \<Rightarrow> k | None \<Rightarrow> ''good''),
          location = l,
          views = 0,
          featured = False,
          created_at = now,
          updated_at = now,
          sold_at = None \<rparr>
      | _ \<Rightarrow> None)"

definition insert_product ::
  "credential \<Rightarrow> timestamp \<Rightarrow> uuid \<Rightarrow> insert_row \<Rightarrow> db \<Rightarrow> store_error + (product \<times> db)" where
  "insert_product c now new_id r d =
     (case with_defaults now new_id r of
        None \<Rightarrow> Inl Not_null_violation
      | Some p \<Rightarrow>
          (case row_violation (permits c (products_insert_check c p)) d (products d @ [p]) p of
             Some e \<Rightarrow> Inl e
           | None \<Rightarrow>
               if permits c (products_select_using c p)
               then Inr (p, d\<lparr>products := products d @ [p]\<rparr>)
               else Inl Rls_violation))"

definition insert_images :: "credential \<Rightarrow> product_image list \<Rightarrow> db \<Rightarrow> store_error + db" where
  "insert_images c imgs d =
     (if \<not> list_all (\<lambda>i. permits c (images_insert_check c d i)) imgs then Inl Rls_violation
      else if \<not> list_all (\<lambda>i. product_id i \<in> pid ` set (products d)) imgs then Inl Fkey_violation
      else Inr (d\<lparr>product_images := product_images d @ imgs\<rparr>))"

section \<open>JavaScript values and the validators\<close>

text \<open>
  Query parameters arrive as strings and the validators do not convert them. \<^verbatim>\<open>isInt\<close>
  tests the string against \<^verbatim>\<open>/^[-+]?[0-9]+$/\<close> and compares it, converted to a number,
  with the bounds.
\<close>

definition is_digit :: "char \<Rightarrow> bool" where
  "is_digit c \<longleftrightarrow> c \<in> set ''0123456789''"

definition digits_val :: "string \<Rightarrow> nat" where
  "digits_val ds = foldl (\<lambda>n c. 10 * n + (of_char c - 48)) 0 ds"

definition unsigned :: "string \<Rightarrow> bool \<times> string" where
  "unsigned s =
     (case s of
        [] \<Rightarrow> (False, s)
      | c # r \<Rightarrow> if c = CHR ''-'' then (True, r) else if c = CHR ''+'' then (False, r)
                 else (False, s))"

definition signed_val :: "bool \<Rightarrow> string \<Rightarrow> int" where
  "signed_val neg ds = (if neg then - int (digits_val ds) else int (digits_val ds))"

text \<open>
  \<^verbatim>\<open>Number(s)\<close> on strings over signs and digits, the only ones it meets here; \<open>None\<close> is
  \<^verbatim>\<open>NaN\<close>. Numbers are read exactly, as JavaScript reads the integers below \<open>2\<^sup>5\<^sup>3\<close>;
  beyond, JavaScript rounds to the nearest double, which is not modelled.
\<close>

definition js_number :: "string \<Rightarrow> int option" where
  "js_number s =
     (case unsigned s of (neg, ds) \<Rightarrow>
        if ds \<noteq> [] \<and> list_all is_digit ds then Some (signed_val neg ds) else None)"

text \<open>
  \<^verbatim>\<open>parseInt(s)\<close>: an optional sign and the longest prefix of digits, read exactly (as
  JavaScript does below \<open>2\<^sup>5\<^sup>3\<close>).
\<close>

definition parseInt :: "string \<Rightarrow> int option" where
  "parseInt s =
     (case unsigned s of (neg, r) \<Rightarrow>
        if takeWhile is_digit r = [] then None else Some (signed_val neg (takeWhile is_digit r)))"

definition isInt :: "int \<Rightarrow> int option \<Rightarrow> string \<Rightarrow> bool" where
  "isInt lo hi s =
     (case js_number s of
        None \<Rightarrow> False
      | Some n \<Rightarrow> lo \<le> n \<and> (case hi of None \<Rightarrow> True | Some h \<Rightarrow> n \<le> h))"

definition isIn :: "string list \<Rightarrow> string \<Rightarrow> bool" where
  "isIn allowed s \<longleftrightarrow> s \<in> set allowed"

text \<open>
  The sanitizer \<^verbatim>\<open>trim()\<close> and the check \<^verbatim>\<open>notEmpty()\<close> behind it. A string is the sequence
  of its UTF-8 bytes, and \<^verbatim>\<open>trim()\<close> removes from both ends every character that \<^verbatim>\<open>\s\<close>
  matches in JavaScript: the six ASCII ones and U+00A0, U+1680, U+2000 to U+200A, U+2028,
  U+2029, U+202F, U+205F, U+3000 and U+FEFF, listed here by their encodings.
\<close>

definition js_whitespace :: "string list" where
  "js_whitespace =
     [[CHR 0x09], [CHR 0x0A], [CHR 0x0B], [CHR 0x0C], [CHR 0x0D], [CHR 0x20],
      [CHR 0xC2, CHR 0xA0],
      [CHR 0xE1, CHR 0x9A, CHR 0x80],
      [CHR 0xE2, CHR 0x80, CHR 0x80], [CHR 0xE2, CHR 0x80, CHR 0x81],
      [CHR 0xE2, CHR 0x80, CHR 0x82], [CHR 0xE2, CHR 0x80, CHR 0x83],
      [CHR 0xE2, CHR 0x80, CHR 0x84], [CHR 0xE2, CHR 0x80, CHR 0x85],
      [CHR 0xE2, CHR 0x80, CHR 0x86], [CHR 0xE2, CHR 0x80, CHR 0x87],
      [CHR 0xE2, CHR 0x80, CHR 0x88], [CHR 0xE2, CHR 0x80, CHR 0x89],
      [CHR 0xE2, CHR 0x80, CHR 0x8A],
      [CHR 0xE2, CHR 0x80, CHR 0xA8], [CHR 0xE2, CHR 0x80, CHR 0xA9],
      [CHR 0xE2, CHR 0x80, CHR 0xAF],
      [CHR 0xE2, CHR 0x81, CHR 0x9F],
      [CHR 0xE3, CHR 0x80, CHR 0x80],
      [CHR 0xEF, CHR 0xBB, CHR 0xBF]]"

function strip_leading :: "string list \<Rightarrow> string \<Rightarrow> string" where
  "strip_leading ws s =
     (case find (\<lambda>w. w \<noteq> [] \<and> take (length w) s = w) ws of
        None \<Rightarrow> s
      | Some w \<Rightarrow> strip_leading ws (drop (length w) s))"
  by pat_completeness auto
termination
proof (relation "measure (\<lambda>(ws, s). length s)")
  show "wf (measure (\<lambda>(ws, s). length s))"
    by simp
next
  fix ws :: "string list" and s w :: string
  assume "find (\<lambda>w. w \<noteq> [] \<and> take (length w) s = w) ws = Some w"
  then have "w \<noteq> []" and "take (length w) s = w"
    by (auto simp: find_Some_iff)
  from \<open>take (length w) s = w\<close> have "length (take (length w) s) = length w"
    by simp
  then have "length w \<le> length s"
    by simp
  moreover from \<open>w \<noteq> []\<close> obtain n where "length w = Suc n"
    by (cases w) auto
  ultimately have "length s - length w < length s"
    by arith
  then show "((ws, drop (length w) s), (ws, s)) \<in> measure (\<lambda>(ws, s). length s)"
    by simp
qed

declare strip_leading.simps [simp del]

definition trim :: "string \<Rightarrow> string" where
  "trim s = rev (strip_leading (map rev js_whitespace) (rev (strip_leading js_whitespace s)))"

text \<open>
  A validation error as \<^verbatim>\<open>errors.array()\<close> lists it: the field and the message
  (\<^verbatim>\<open>Invalid value\<close> where the chain gives none).
\<close>

type_synonym validation_error = "string \<times> string"

definition check :: "bool \<Rightarrow> string \<Rightarrow> string \<Rightarrow> validation_error list" where
  "check ok field msg = (if ok then [] else [(field, msg)])"

definition optional :: "'a option \<Rightarrow> ('a \<Rightarrow> bool) \<Rightarrow> string \<Rightarrow> string \<Rightarrow> validation_error list" where
  "optional v ok field msg = (case v of None \<Rightarrow> [] | Some x \<Rightarrow> check (ok x) field msg)"

definition required :: "'a option \<Rightarrow> ('a \<Rightarrow> bool) \<Rightarrow> string \<Rightarrow> string \<Rightarrow> validation_error list" where
  "required v ok field msg = (case v of None \<Rightarrow> [(field, msg)] | Some x \<Rightarrow> check (ok x) field msg)"

section \<open>Responses\<close>

record pagination =
  total :: nat
  limit :: "int option"
  offset :: "int option"
  hasMore :: bool

datatype payload =
    Errors "validation_error list"
  | Error_store store_error
  | Error string
  | Unauthenticated
  | Message string
  | Message_product string "product option"
  | Product product
  | Products "product list" pagination

datatype response = Response (code: nat) (json: payload)

section \<open>The handlers of \<^verbatim>\<open>products.routes.js\<close>\<close>

text \<open>
  Every handler takes the caller as the middleware left it in \<^verbatim>\<open>req.user\<close> (\<open>None\<close> when
  the request carries no valid token), the request and the database, and returns the
  response and the database it leaves. \<open>now\<close> is the store's \<^verbatim>\<open>now()\<close> and \<open>date\<close> the
  server's \<^verbatim>\<open>new Date()\<close>. The embedded rows of the response (category, seller, images) are
  left out. The store client returns its errors instead of throwing, so the \<^verbatim>\<open>catch\<close>
  branches (status 500) are not reached. The route parameter \<^verbatim>\<open>:id\<close> is a well-formed UUID;
  for any other text the store reports an error, which the handlers answer with status
  400.
\<close>

text \<open>
  Modelled from the spec: the middleware \<^verbatim>\<open>authenticateUser\<close> of \<^verbatim>\<open>middleware/auth.js\<close> is
  missing; by the spec a missing or invalid credential is answered with status 401 and the
  handler does not run. (\<^verbatim>\<open>optionalAuth\<close>, of the same file, lets the request through with
  \<^verbatim>\<open>req.user\<close> unset.)
\<close>

definition unauthenticated :: response where
  "unauthenticated = Response 401 Unauthenticated"

subsection \<open>\<^verbatim>\<open>POST /\<close>\<close>

record create_body =
  body_title :: "string option"
  body_description :: "string option"
  body_price :: "int option"
  body_category_id :: "uuid option"
  body_condition :: "string option"
  body_location :: "string option"
  body_images :: "string list option"
  body_status :: "string option"

definition create_errors :: "create_body \<Rightarrow> validation_error list" where
  "create_errors b =
     required (body_title b) (\<lambda>t. trim t \<noteq> []) ''title'' ''Title is required''
   @ required (body_description b) (\<lambda>t. trim t \<noteq> []) ''description'' ''Description is required''
   @ required (body_price b) (\<lambda>x. 0 \<le> x) ''price'' ''Price must be a positive number''
   @ required (body_category_id b) (\<lambda>c. True) ''category_id'' ''Valid category ID is required''
   @ required (body_condition b) (isIn conditions) ''condition'' ''Invalid condition''
   @ required (body_location b) (\<lambda>t. trim t \<noteq> []) ''location'' ''Location is required''
   @ optional (body_images b) (\<lambda>i. True) ''images'' ''Images must be an array''
   @ optional (body_status b) (isIn [''draft'', ''active'']) ''status'' ''Invalid status''"

text \<open>\<^verbatim>\<open>status || 'draft'\<close>: an absent or empty status is falsy.\<close>

definition status_or_draft :: "string option \<Rightarrow> string" where
  "status_or_draft st = (case st of None \<Rightarrow> ''draft'' | Some s \<Rightarrow> if s = [] then ''draft'' else s)"

definition image_records :: "uuid \<Rightarrow> string list \<Rightarrow> product_image list" where
  "image_records i urls =
     map (\<lambda>(index, url). \<lparr> product_id = i, image_url = url, display_order = index,
                             is_primary = (index = 0) \<rparr>)
       (enumerate 0 urls)"

text \<open>
  The images are inserted after the product; a failure is logged and the product stays.
\<close>

definition add_images :: "credential \<Rightarrow> uuid \<Rightarrow> string list option \<Rightarrow> db \<Rightarrow> db" where
  "add_images userSupabase i imgs d =
     (case imgs of
        None \<Rightarrow> d
      | Some images \<Rightarrow>
          if 0 < length images
          then (case insert_images userSupabase (image_records i images) d of
                  Inl imagesError \<Rightarrow> d
                | Inr d' \<Rightarrow> d')
          else d)"

definition select_by_id :: "credential \<Rightarrow> uuid \<Rightarrow> db \<Rightarrow> product list" where
  "select_by_id c i d = select_products c no_ilike [Eq_id i] d"

definition full_product :: "credential \<Rightarrow> uuid \<Rightarrow> db \<Rightarrow> product option" where
  "full_product userSupabase i d =
     (case single (select_by_id userSupabase i d) of Inl e \<Rightarrow> None | Inr p \<Rightarrow> Some p)"

definition create_product ::
  "timestamp \<Rightarrow> uuid \<Rightarrow> uuid option \<Rightarrow> create_body \<Rightarrow> db \<Rightarrow> response \<times> db" where
  "create_product now new_id user b d =
     (case user of
        None \<Rightarrow> (unauthenticated, d)
      | Some uid \<Rightarrow>
          if create_errors b \<noteq> [] then (Response 400 (Errors (create_errors b)), d)
          else
            (case insert_product (getSupabaseClient uid) now new_id
                   \<lparr> ins_user_id = Some uid,
                     ins_title = map_option trim (body_title b),
                     ins_description = map_option trim (body_description b),
                     ins_price = body_price b,
                     ins_category_id = body_category_id b,
                     ins_condition = body_condition b,
                     ins_location = map_option trim (body_location b),
                     ins_status = Some (status_or_draft (body_status b)) \<rparr> d of
              Inl productError \<Rightarrow> (Response 400 (Error_store productError), d)
            | Inr (product, d1) \<Rightarrow>
                (let d2 = add_images (getSupabaseClient uid) (pid product) (body_images b) d1
                 in (Response 201
                       (Message_product ''Product created successfully''
                          (full_product (getSupabaseClient uid) (pid product) d2)),
                     d2))))"

subsection \<open>\<^verbatim>\<open>GET /\<close>\<close>

record list_query =
  q_category_id :: "uuid option"
  q_status :: "string option"
  q_min_price :: "int option"
  q_max_price :: "int option"
  q_condition :: "string option"
  q_search :: "string option"
  q_user_id :: "uuid option"
  q_limit :: "string option"
  q_offset :: "string option"

definition list_errors :: "list_query \<Rightarrow> validation_error list" where
  "list_errors q =
     optional (q_category_id q) (\<lambda>c. True) ''category_id'' ''Invalid value''
   @ optional (q_status q) (isIn [''active'', ''sold'', ''draft'', ''archived'']) ''status''
       ''Invalid value''
   @ optional (q_min_price q) (\<lambda>x. 0 \<le> x) ''min_price'' ''Invalid value''
   @ optional (q_max_price q) (\<lambda>x. 0 \<le> x) ''max_price'' ''Invalid value''
   @ optional (q_condition q) (isIn conditions) ''condition'' ''Invalid value''
   @ optional (q_search q) (\<lambda>s. True) ''search'' ''Invalid value''
   @ optional (q_user_id q) (\<lambda>u. True) ''user_id'' ''Invalid value''
   @ optional (q_limit q) (isInt 1 (Some 100)) ''limit'' ''Invalid value''
   @ optional (q_offset q) (isInt 0 None) ''offset'' ''Invalid value''"

text \<open>
  The filters in the order the handler chains them. A parameter that passed validation is
  a non-empty string and so truthy, except \<^verbatim>\<open>search\<close>, which may be empty.
\<close>

definition visibility_filters :: "uuid option \<Rightarrow> list_query \<Rightarrow> cond list" where
  "visibility_filters user q =
     (if user = None \<or> q_user_id q = None \<or> q_user_id q \<noteq> user then [Eq_status ''active'']
      else if q_user_id q \<noteq> None \<and> user \<noteq> None \<and> q_user_id q = user then
        (case q_user_id q of None \<Rightarrow> [] | Some u \<Rightarrow> [Eq_user_id u])
        @ (case q_status q of None \<Rightarrow> [] | Some s \<Rightarrow> [Eq_status s])
      else [])"

definition other_filters :: "list_query \<Rightarrow> cond list" where
  "other_filters q =
     (case q_category_id q of None \<Rightarrow> [] | Some c \<Rightarrow> [Eq_category_id c])
   @ (case q_min_price q of None \<Rightarrow> [] | Some x \<Rightarrow> [Gte_price x])
   @ (case q_max_price q of None \<Rightarrow> [] | Some x \<Rightarrow> [Lte_price x])
   @ (case q_condition q of None \<Rightarrow> [] | Some c \<Rightarrow> [Eq_condition c])
   @ (case q_search q of None \<Rightarrow> [] | Some s \<Rightarrow> if s = [] then [] else [Or_ilike s])"

text \<open>
  \<^verbatim>\<open>.order('created_at', { ascending: false })\<close>; rows of equal \<^verbatim>\<open>created_at\<close> come in an
  order the store does not fix.
\<close>

definition order_created_at_desc :: "product list \<Rightarrow> product list" where
  "order_created_at_desc rows = rev (sort_key created_at rows)"

text \<open>
  \<^verbatim>\<open>.range(offset, offset + limit - 1)\<close> with \<^verbatim>\<open>limit = 20\<close> and \<^verbatim>\<open>offset = 0\<close> as defaults.
  A supplied parameter is a string, and \<^verbatim>\<open>+\<close> concatenates as soon as one operand is a
  string (the other is rendered, \<^verbatim>\<open>0\<close> as \<^verbatim>\<open>"0"\<close> and \<^verbatim>\<open>20\<close> as \<^verbatim>\<open>"20"\<close>); \<^verbatim>\<open>-\<close> then
  converts the concatenation to a number.
\<close>

definition range_from :: "list_query \<Rightarrow> int option" where
  "range_from q = (case q_offset q of None \<Rightarrow> Some 0 | Some off \<Rightarrow> js_number off)"

definition range_to :: "list_query \<Rightarrow> int option" where
  "range_to q =
     map_option (\<lambda>n. n - 1)
       (case (q_offset q, q_limit q) of
          (None, None) \<Rightarrow> Some (0 + 20)
        | (None, Some lim) \<Rightarrow> js_number (''0'' @ lim)
        | (Some off, None) \<Rightarrow> js_number (off @ ''20'')
        | (Some off, Some lim) \<Rightarrow> js_number (off @ lim))"

text \<open>
  The store's window: the client asks for \<^verbatim>\<open>to - from + 1\<close> rows from row \<^verbatim>\<open>from\<close> on. What
  the store answers to a window that is no number is not the handler's to say; the model
  lets it report an error.
\<close>

definition range_rows :: "int option \<Rightarrow> int option \<Rightarrow> 'a list \<Rightarrow> store_error + 'a list" where
  "range_rows from to rows =
     (case (from, to) of
        (Some f, Some t) \<Rightarrow>
          if 0 \<le> f \<and> 0 \<le> t - f + 1 then Inr (take (nat (t - f + 1)) (drop (nat f) rows))
          else Inl Bad_range
      | _ \<Rightarrow> Inl Bad_range)"

definition parsed_limit :: "list_query \<Rightarrow> int option" where
  "parsed_limit q = (case q_limit q of None \<Rightarrow> Some 20 | Some lim \<Rightarrow> parseInt lim)"

definition parsed_offset :: "list_query \<Rightarrow> int option" where
  "parsed_offset q = (case q_offset q of None \<Rightarrow> Some 0 | Some off \<Rightarrow> parseInt off)"

text \<open>\<^verbatim>\<open>count > parseInt(offset) + parseInt(limit)\<close>; a comparison with \<^verbatim>\<open>NaN\<close> is false.\<close>

definition has_more :: "nat \<Rightarrow> int option \<Rightarrow> int option \<Rightarrow> bool" where
  "has_more count off lim =
     (case (off, lim) of (Some x, Some l) \<Rightarrow> x + l < int count | _ \<Rightarrow> False)"

text \<open>
  The rows the query matches, in order, before the window is cut out; \<^verbatim>\<open>count: 'exact'\<close>
  counts them. The query goes through the module-level client, of credential \<open>supabase\<close>.
\<close>

definition list_matching ::
  "credential \<Rightarrow> (string \<Rightarrow> product \<Rightarrow> bool) \<Rightarrow> uuid option \<Rightarrow> list_query \<Rightarrow> db \<Rightarrow> product list" where
  "list_matching supabase ilike user q d =
     order_created_at_desc
       (select_products supabase ilike (visibility_filters user q @ other_filters q) d)"

definition list_products ::
  "credential \<Rightarrow> (string \<Rightarrow> product \<Rightarrow> bool) \<Rightarrow> uuid option \<Rightarrow> list_query \<Rightarrow> db \<Rightarrow> response \<times> db" where
  "list_products supabase ilike user q d =
     (if list_errors q \<noteq> [] then (Response 400 (Errors (list_errors q)), d)
      else
        let rows = list_matching supabase ilike user q d; count = length rows in
        case range_rows (range_from q) (range_to q) rows of
          Inl error \<Rightarrow> (Response 400 (Error_store error), d)
        | Inr page \<Rightarrow>
            (Response 200 (Products page
               \<lparr> total = count, limit = parsed_limit q, offset = parsed_offset q,
                 hasMore = has_more count (parsed_offset q) (parsed_limit q) \<rparr>), d))"

subsection \<open>\<^verbatim>\<open>GET /:id\<close>\<close>

text \<open>
  The handler awaits the store twice: it selects the row, decides, and then sends an
  update that sets \<^verbatim>\<open>views\<close> to the value it read plus one. Both calls go through the
  module-level client. The result of the update is not looked at.
\<close>

definition read_select :: "credential \<Rightarrow> uuid option \<Rightarrow> uuid \<Rightarrow> db \<Rightarrow> response + product" where
  "read_select supabase user i d =
     (case maybeSingle (select_by_id supabase i d) of
        Inl error \<Rightarrow> Inl (Response 400 (Error_store error))
      | Inr None \<Rightarrow> Inl (Response 404 (Error ''Product not found''))
      | Inr (Some product) \<Rightarrow>
          if status product \<noteq> ''active'' \<and> (user = None \<or> Some (user_id product) \<noteq> user)
          then Inl (Response 403 (Error ''Access denied''))
          else Inr product)"

definition read_update :: "credential \<Rightarrow> timestamp \<Rightarrow> uuid \<Rightarrow> product \<Rightarrow> db \<Rightarrow> db" where
  "read_update supabase now i product d =
     (case update_products supabase now (no_updates\<lparr>upd_views := Some (views product + 1)\<rparr>)
             [Eq_id i] d of
        Inl error \<Rightarrow> d
      | Inr (rows, d') \<Rightarrow> d')"

definition get_product ::
  "credential \<Rightarrow> timestamp \<Rightarrow> uuid option \<Rightarrow> uuid \<Rightarrow> db \<Rightarrow> response \<times> db" where
  "get_product supabase now user i d =
     (case read_select supabase user i d of
        Inl denied \<Rightarrow> (denied, d)
      | Inr product \<Rightarrow>
          (Response 200 (Product (product\<lparr>views := views product + 1\<rparr>)),
           read_update supabase now i product d))"

subsection \<open>\<^verbatim>\<open>PUT /:id\<close>\<close>

text \<open>
  The body is forwarded to the store as it came (\<^verbatim>\<open>updates = req.body\<close>), after the
  sanitizers trimmed the three text fields; only the fields named by the validators are
  checked.
\<close>

definition update_errors :: "updates \<Rightarrow> validation_error list" where
  "update_errors b =
     optional (upd_title b) (\<lambda>t. trim t \<noteq> []) ''title'' ''Invalid value''
   @ optional (upd_description b) (\<lambda>t. trim t \<noteq> []) ''description'' ''Invalid value''
   @ optional (upd_price b) (\<lambda>x. 0 \<le> x) ''price'' ''Invalid value''
   @ optional (upd_category_id b) (\<lambda>c. True) ''category_id'' ''Invalid value''
   @ optional (upd_condition b) (isIn conditions) ''condition'' ''Invalid value''
   @ optional (upd_location b) (\<lambda>t. trim t \<noteq> []) ''location'' ''Invalid value''
   @ optional (upd_status b) (isIn [''draft'', ''active'', ''sold'', ''archived'']) ''status''
       ''Invalid value''"

definition sanitized :: "updates \<Rightarrow> updates" where
  "sanitized b = b\<lparr> upd_title := map_option trim (upd_title b),
                    upd_description := map_option trim (upd_description b),
                    upd_location := map_option trim (upd_location b) \<rparr>"

text \<open>
  \<^verbatim>\<open>if (updates.status === 'sold' && !updates.sold_at) updates.sold_at = new Date()\<close>: an
  absent or null \<^verbatim>\<open>sold_at\<close> is falsy.
\<close>

definition stamp_sold_at :: "timestamp \<Rightarrow> updates \<Rightarrow> updates" where
  "stamp_sold_at date updates =
     (if upd_status updates = Some ''sold''
         \<and> (upd_sold_at updates = None \<or> upd_sold_at updates = Some None)
      then updates\<lparr>upd_sold_at := Some (Some date)\<rparr>
      else updates)"

definition update_product ::
  "timestamp \<Rightarrow> timestamp \<Rightarrow> uuid option \<Rightarrow> uuid \<Rightarrow> updates \<Rightarrow> db \<Rightarrow> response \<times> db" where
  "update_product now date user i b d =
     (case user of
        None \<Rightarrow> (unauthenticated, d)
      | Some uid \<Rightarrow>
          if update_errors b \<noteq> [] then (Response 400 (Errors (update_errors b)), d)
          else
            (case update_single (getSupabaseClient uid) now (stamp_sold_at date (sanitized b))
                    [Eq_id i, Eq_user_id uid] d of
               Inl error \<Rightarrow> (Response 400 (Error_store error), d)
             | Inr (product, d') \<Rightarrow>
                 (Response 200 (Message_product ''Product updated successfully'' (Some product)),
                  d')))"

subsection \<open>\<^verbatim>\<open>DELETE /:id\<close>\<close>

definition delete_product :: "uuid option \<Rightarrow> uuid \<Rightarrow> db \<Rightarrow> response \<times> db" where
  "delete_product user i d =
     (case user of
        None \<Rightarrow> (unauthenticated, d)
      | Some uid \<Rightarrow>
          (case delete_products (getSupabaseClient uid) [Eq_id i, Eq_user_id uid] d of
             Inl error \<Rightarrow> (Response 400 (Error_store error), d)
           | Inr d' \<Rightarrow> (Response 200 (Message ''Product deleted successfully''), d')))"

subsection \<open>\<^verbatim>\<open>PATCH /:id/status\<close>\<close>

definition status_errors :: "string option \<Rightarrow> validation_error list" where
  "status_errors st =
     required st (isIn [''draft'', ''active'', ''sold'', ''archived'']) ''status'' ''Invalid status''"

text \<open>\<^verbatim>\<open>updates = { status }\<close>, and \<^verbatim>\<open>sold_at\<close> is stamped whenever the status is \<^verbatim>\<open>sold\<close>.\<close>

definition status_updates :: "timestamp \<Rightarrow> string option \<Rightarrow> updates" where
  "status_updates date st =
     (if st = Some ''sold''
      then no_updates\<lparr>upd_status := st, upd_sold_at := Some (Some date)\<rparr>
      else no_updates\<lparr>upd_status := st\<rparr>)"

definition set_status ::
  "timestamp \<Rightarrow> timestamp \<Rightarrow> uuid option \<Rightarrow> uuid \<Rightarrow> string option \<Rightarrow> db \<Rightarrow> response \<times> db" where
  "set_status now date user i st d =
     (case user of
        None \<Rightarrow> (unauthenticated, d)
      | Some uid \<Rightarrow>
          if status_errors st \<noteq> [] then (Response 400 (Errors (status_errors st)), d)
          else
            (case update_single (getSupabaseClient uid) now (status_updates date st)
                    [Eq_id i, Eq_user_id uid] d of
               Inl error \<Rightarrow> (Response 400 (Error_store error), d)
             | Inr (product, d') \<Rightarrow>
                 (Response 200
                    (Message_product ''Product status updated successfully'' (Some product)),
                  d')))"

section \<open>Reads one after another, and reads that overlap\<close>

text \<open>
  The constraints the schema declares on the tables: the primary key and the checks of
  \<^verbatim>\<open>products\<close>, the ranges of its column types and the foreign keys.
\<close>

definition consistent :: "db \<Rightarrow> bool" where
  "consistent d \<longleftrightarrow>
     distinct (map pid (products d))
   \<and> list_all (\<lambda>p. products_check p \<and> in_range p \<and> products_fkey d p) (products d)
   \<and> list_all (\<lambda>i. product_id i \<in> pid ` set (products d)) (product_images d)"

text \<open>The row as a read's update leaves it.\<close>

definition bump :: "timestamp \<Rightarrow> product \<Rightarrow> product" where
  "bump now p = p\<lparr>views := views p + 1, updated_at := now\<rparr>"

text \<open>Requests to \<^verbatim>\<open>GET /:id\<close> served one after another, at the given times.\<close>

fun reads ::
  "credential \<Rightarrow> uuid option \<Rightarrow> uuid \<Rightarrow> timestamp list \<Rightarrow> db \<Rightarrow> response list \<times> db" where
  "reads supabase user i [] d = ([], d)"
| "reads supabase user i (now # later) d =
     (case get_product supabase now user i d of
        (r, d') \<Rightarrow> (case reads supabase user i later d' of (rs, d'') \<Rightarrow> (r # rs, d'')))"

text \<open>
  A request to \<^verbatim>\<open>GET /:id\<close> gives up control at each of its two \<^verbatim>\<open>await\<close>s, so that another
  request may run between its select and its update. A request is before its select,
  between the two calls (holding the row it read), or done.
\<close>

datatype phase = Selecting | Updating product | Responded

definition read_step ::
  "credential \<Rightarrow> timestamp \<Rightarrow> uuid option \<Rightarrow> uuid \<Rightarrow> phase \<Rightarrow> db \<Rightarrow> phase \<times> db" where
  "read_step supabase now user i t d =
     (case t of
        Selecting \<Rightarrow>
          (case read_select supabase user i d of
             Inl denied \<Rightarrow> (Responded, d)
           | Inr product \<Rightarrow> (Updating product, d))
      | Updating product \<Rightarrow> (Responded, read_update supabase now i product d)
      | Responded \<Rightarrow> (Responded, d))"

text \<open>
  A schedule names, step by step, the request that runs up to its next \<^verbatim>\<open>await\<close>.
\<close>

fun interleave ::
  "credential \<Rightarrow> timestamp \<Rightarrow> uuid option \<Rightarrow> uuid \<Rightarrow> nat list \<Rightarrow> phase list \<times> db
     \<Rightarrow> phase list \<times> db" where
  "interleave supabase now user i [] s = s"
| "interleave supabase now user i (k # schedule) (phases, d) =
     (if k < length phases
      then (case read_step supabase now user i (phases ! k) d of
              (t, d') \<Rightarrow> interleave supabase now user i schedule (phases[k := t], d'))
      else interleave supabase now user i schedule (phases, d))"

section \<open>A small marketplace\<close>

text \<open>
  Users 10 and 11 and one category. User 10 owns a draft and an active listing, user 11 a
  listing sold at time 7.
\<close>

definition chair :: product where
  "chair = \<lparr> pid = 1, user_id = 10, category_id = 100, title = ''Chair'',
     description = ''Wooden'', price = 1000, status = ''draft'', condition = ''good'',
     location = ''X'', views = 0, featured = False, created_at = 3, updated_at = 3,
     sold_at = None \<rparr>"

definition lamp :: product where
  "lamp = \<lparr> pid = 2, user_id = 10, category_id = 100, title = ''Lamp'',
     description = ''Brass'', price = 2500, status = ''active'', condition = ''new'',
     location = ''X'', views = 4, featured = False, created_at = 5, updated_at = 5,
     sold_at = None \<rparr>"

definition desk :: product where
  "desk = \<lparr> pid = 3, user_id = 11, category_id = 100, title = ''Desk'',
     description = ''Oak'', price = 9000, status = ''sold'', condition = ''fair'',
     location = ''Y'', views = 2, featured = False, created_at = 4, updated_at = 7,
     sold_at = Some 7 \<rparr>"

definition shop :: db where
  "shop = \<lparr> products = [chair, lamp, desk], product_images = [], categories = [100],
     profiles = [10, 11] \<rparr>"

text \<open>The request of the spec's scenario, and the empty query.\<close>

definition chair_body :: create_body where
  "chair_body = \<lparr> body_title = Some ''Chair'', body_description = Some ''Wooden'',
     body_price = Some 1000, body_category_id = Some 100, body_condition = Some ''good'',
     body_location = Some ''X'', body_images = None, body_status = None \<rparr>"

definition no_query :: list_query where
  "no_query = \<lparr> q_category_id = None, q_status = None, q_min_price = None,
     q_max_price = None, q_condition = None, q_search = None, q_user_id = None,
     q_limit = None, q_offset = None \<rparr>"

lemmas store_defs =
  select_products_def select_by_id_def matches_def permits_def no_ilike_def
  products_select_using_def products_insert_check_def products_update_using_def
  products_update_check_def products_delete_using_def images_insert_check_def
  update_products_def update_single_def delete_products_def insert_product_def
  insert_images_def with_defaults_def new_row_def set_columns_def
  update_updated_at_column_def row_violation_def products_check_def in_range_def
  products_fkey_def statuses_def conditions_def no_updates_def getSupabaseClient_def

lemmas validator_defs =
  check_def optional_def required_def isIn_def isInt_def js_number_def parseInt_def
  unsigned_def signed_val_def digits_val_def is_digit_def

lemmas shop_defs = shop_def chair_def lamp_def desk_def chair_body_def no_query_def

lemmas create_defs =
  create_product_def create_errors_def status_or_draft_def full_product_def add_images_def
  image_records_def unauthenticated_def

lemmas update_defs =
  update_product_def update_errors_def sanitized_def stamp_sold_at_def set_status_def
  status_errors_def status_updates_def delete_product_def get_product_def read_select_def
  read_update_def read_step_def unauthenticated_def

lemmas list_defs =
  list_products_def list_matching_def list_errors_def visibility_filters_def
  other_filters_def order_created_at_desc_def range_rows_def range_from_def range_to_def
  parsed_limit_def parsed_offset_def has_more_def

section \<open>Reading a listing\<close>

lemma maybeSingle_None: "maybeSingle xs = Inr None \<longleftrightarrow> xs = []"
  by (cases xs rule: maybeSingle.cases) simp_all

lemma filter_eq_single: "distinct xs \<Longrightarrow> p \<in> set xs \<Longrightarrow> filter (\<lambda>q. q = p) xs = [p]"
  by (induction xs) (auto simp: filter_empty_conv)

lemma pid_unique:
  assumes "distinct (map pid xs)" "p \<in> set xs" "q \<in> set xs" "pid q = pid p"
  shows "q = p"
  using assms by (meson distinct_map inj_onD)

lemma filter_pid:
  assumes "distinct (map pid xs)" "p \<in> set xs"
  shows "filter (\<lambda>q. pid q = pid p) xs = [p]"
proof -
  have "filter (\<lambda>q. pid q = pid p) xs = filter (\<lambda>q. q = p) xs"
    using assms by (intro filter_cong) (auto dest: pid_unique)
  also have "\<dots> = [p]"
    using assms by (intro filter_eq_single) (auto simp: distinct_map)
  finally show ?thesis .
qed

lemma select_by_id_consistent:
  assumes "distinct (map pid (products d))" "p \<in> set (products d)"
  shows "select_by_id c (pid p) d = (if permits c (products_select_using c p) then [p] else [])"
proof -
  have "select_by_id c (pid p) d
          = filter (\<lambda>q. permits c (products_select_using c q)) (filter (\<lambda>q. pid q = pid p) (products d))"
    by (simp add: select_by_id_def select_products_def matches_def conj_commute)
  then show ?thesis by (simp add: filter_pid [OF assms])
qed

lemma select_by_id_absent:
  assumes "i \<notin> pid ` set (products d)"
  shows "select_by_id c i d = []"
  using assms by (auto simp: select_by_id_def select_products_def matches_def filter_empty_conv)

text \<open>
  What the handler of \<^verbatim>\<open>GET /:id\<close> does with the answer of its select: a row that is active
  or owned by the caller is returned, for any other row the answer is status 403, and
  status 404 is given exactly when the select returns no row.
\<close>

lemma get_product_outcome:
  "(maybeSingle (select_by_id supabase i d) = Inr (Some p) \<longrightarrow>
      (if status p = ''active'' \<or> user = Some (user_id p)
       then fst (get_product supabase now user i d)
              = Response 200 (Product (p\<lparr>views := views p + 1\<rparr>))
       else get_product supabase now user i d = (Response 403 (Error ''Access denied''), d)))
   \<and> (code (fst (get_product supabase now user i d)) = 404
        \<longleftrightarrow> maybeSingle (select_by_id supabase i d) = Inr None)"
  by (auto simp: get_product_def read_select_def split: sum.splits option.splits)

lemma get_product_absent:
  assumes "i \<notin> pid ` set (products d)"
  shows "get_product supabase now user i d = (Response 404 (Error ''Product not found''), d)"
  by (simp add: get_product_def read_select_def select_by_id_absent [OF assms])

text \<open>
  Claim C3 says that a listing that is not active is read by its owner and refused to
  everyone else with status 403, status 404 being kept for identifiers that resolve to no
  record. The handler has this rule, but it never gets to apply it: its select goes through
  the module-level client, and the select policy
  \<^verbatim>\<open>status = 'active' OR user_id = auth.uid()\<close> hides the listing from every client that
  is subject to row-level security and is not signed in as the owner. For a listing \<open>p\<close>
  of the table that is not active, every caller, the owner included, is then answered with
  status 404 and \<^verbatim>\<open>Product not found\<close>.
\<close>

theorem hidden_listing_not_found:
  assumes "distinct (map pid (products d))" and "p \<in> set (products d)"
    and "status p \<noteq> ''active''"
    and "supabase \<noteq> ServiceKey" and "auth_uid supabase \<noteq> Some (user_id p)"
  shows "get_product supabase now user (pid p) d
           = (Response 404 (Error ''Product not found''), d)"
proof -
  from assms(3-5) have "\<not> permits supabase (products_select_using supabase p)"
    by (simp add: permits_def products_select_using_def)
  with select_by_id_consistent [OF assms(1,2), of supabase]
  have "select_by_id supabase (pid p) d = []"
    by simp
  then show ?thesis
    by (simp add: get_product_def read_select_def)
qed

theorem hidden_listing_not_found_witness:
  "chair \<in> set (products shop) \<and> pid chair = 1 \<and> user_id chair = 10
   \<and> status chair = ''draft''
   \<and> get_product AnonKey 9 (Some 10) 1 shop = (Response 404 (Error ''Product not found''), shop)
   \<and> get_product AnonKey 9 (Some 11) 1 shop = (Response 404 (Error ''Product not found''), shop)
   \<and> get_product AnonKey 9 None 1 shop = (Response 404 (Error ''Product not found''), shop)"
proof -
  have k: "distinct (map pid (products shop))" "chair \<in> set (products shop)"
    "pid chair = 1" "user_id chair = 10" "status chair = ''draft''"
    "status chair \<noteq> ''active''"
    by (simp_all add: shop_defs)
  have a: "AnonKey \<noteq> ServiceKey" "auth_uid AnonKey \<noteq> Some (user_id chair)"
    by simp_all
  show ?thesis
    using k(2-5)
      hidden_listing_not_found [OF k(1,2,6) a, of 9 "Some 10"]
      hidden_listing_not_found [OF k(1,2,6) a, of 9 "Some 11"]
      hidden_listing_not_found [OF k(1,2,6) a, of 9 None]
    by simp
qed

section \<open>Callers other than the owner\<close>

lemma no_target:
  assumes "\<forall>p\<in>set (products d). pid p = i \<longrightarrow> user_id p \<noteq> uid"
  shows "filter (\<lambda>p. matches no_ilike [Eq_id i, Eq_user_id uid] p \<and> P p) (products d) = []"
  using assms by (auto simp: filter_empty_conv matches_def)

lemma update_single_foreign:
  assumes "\<forall>p\<in>set (products d). pid p = i \<longrightarrow> user_id p \<noteq> uid"
  shows "\<exists>e. update_single c now u [Eq_id i, Eq_user_id uid] d = Inl e"
  using no_target [OF assms] by (simp add: update_single_def update_products_def Let_def)

lemma delete_foreign:
  assumes "\<forall>p\<in>set (products d). pid p = i \<longrightarrow> user_id p \<noteq> uid"
  shows "delete_products c [Eq_id i, Eq_user_id uid] d = Inr d"
proof -
  have keep: "filter (\<lambda>p. \<not> (matches no_ilike [Eq_id i, Eq_user_id uid] p
                \<and> permits c (products_delete_using c p))) (products d) = products d"
    using assms by (auto simp: filter_id_conv matches_def)
  have gone: "filter (\<lambda>p. matches no_ilike [Eq_id i, Eq_user_id uid] p
                \<and> permits c (products_delete_using c p)) (products d) = []"
    by (rule no_target [OF assms])
  show ?thesis
    unfolding delete_products_def Let_def gone keep by simp
qed

text \<open>
  Claim C4. When the listing \<open>i\<close> is not owned by the authenticated caller \<open>uid\<close>, the
  handlers of \<^verbatim>\<open>PUT /:id\<close>, \<^verbatim>\<open>PATCH /:id/status\<close> and \<^verbatim>\<open>DELETE /:id\<close> leave the whole database
  as it was, whatever the body. The two updates answer with status 400 (the store found no
  row to return); the delete answers as if it had deleted, having removed nothing.
\<close>

theorem foreign_caller_no_mutation:
  assumes "\<forall>p\<in>set (products d). pid p = i \<longrightarrow> user_id p \<noteq> uid"
  shows "snd (update_product now date (Some uid) i b d) = d
       \<and> code (fst (update_product now date (Some uid) i b d)) = 400
       \<and> snd (set_status now date (Some uid) i st d) = d
       \<and> code (fst (set_status now date (Some uid) i st d)) = 400
       \<and> delete_product (Some uid) i d
           = (Response 200 (Message ''Product deleted successfully''), d)"
proof -
  obtain e where e: "update_single (getSupabaseClient uid) now
      (stamp_sold_at date (sanitized b)) [Eq_id i, Eq_user_id uid] d = Inl e"
    using update_single_foreign [OF assms] by blast
  obtain e' where e': "update_single (getSupabaseClient uid) now
      (status_updates date st) [Eq_id i, Eq_user_id uid] d = Inl e'"
    using update_single_foreign [OF assms] by blast
  show ?thesis
    by (simp add: update_product_def set_status_def delete_product_def e e'
        delete_foreign [OF assms])
qed

theorem foreign_caller_no_mutation_witness:
  "lamp \<in> set (products shop) \<and> pid lamp = 2 \<and> user_id lamp = 10
   \<and> map pid (products shop) = [1, 2, 3]
   \<and> snd (update_product 8 9 (Some 11) 2 (no_updates\<lparr>upd_price := Some 1\<rparr>) shop) = shop
   \<and> snd (set_status 8 9 (Some 11) 2 (Some ''sold'') shop) = shop
   \<and> snd (delete_product (Some 11) 2 shop) = shop"
proof -
  have h: "\<forall>p\<in>set (products shop). pid p = 2 \<longrightarrow> user_id p \<noteq> 11"
    by (simp add: shop_defs)
  have "lamp \<in> set (products shop) \<and> pid lamp = 2 \<and> user_id lamp = 10
      \<and> map pid (products shop) = [1, 2, 3]"
    by (simp add: shop_defs)
  then show ?thesis
    using h
      foreign_caller_no_mutation [OF h, of 8 9 "no_updates\<lparr>upd_price := Some 1\<rparr>" "Some ''sold''"]
    by simp
qed

section \<open>Creating a listing\<close>

lemma trim_examples:
  "trim ''Chair'' = ''Chair''" "trim ''Wooden'' = ''Wooden''" "trim ''X'' = ''X''"
  "trim '' Chair  '' = ''Chair''" "trim [CHR 0xC2, CHR 0xA0] = []"
  by (simp_all add: trim_def js_whitespace_def strip_leading.simps)

lemma products_add_images: "products (add_images c i imgs d) = products d"
  by (simp add: add_images_def insert_images_def split: option.splits sum.splits if_splits)

lemma create_errors_status:
  assumes "create_errors b = []"
  shows "status_or_draft (body_status b)
           = (case body_status b of None \<Rightarrow> ''draft'' | Some s \<Rightarrow> s)"
    and "status_or_draft (body_status b) \<in> {''draft'', ''active''}"
  using assms
  by (auto simp: create_errors_def optional_def check_def isIn_def status_or_draft_def
      split: option.splits if_splits)

lemma insert_product_row:
  assumes "insert_product c now new_id r d = Inr (p, d1)"
  shows "with_defaults now new_id r = Some p \<and> products d1 = products d @ [p]"
  using assms
  by (auto simp: insert_product_def split: option.splits if_splits)

lemma with_defaults_row:
  assumes "with_defaults now new_id r = Some p"
  shows "pid p = new_id \<and> Some (user_id p) = ins_user_id r \<and> views p = 0
     \<and> sold_at p = None
     \<and> status p = (case ins_status r of Some s \<Rightarrow> s | None \<Rightarrow> ''draft'')"
  using assms
  by (auto simp: with_defaults_def split: option.splits)

lemma status_rejected:
  assumes "body_status b = Some s" "s \<notin> {''draft'', ''active''}"
  shows "(''status'', ''Invalid status'') \<in> set (create_errors b)"
  using assms by (simp add: create_errors_def optional_def check_def isIn_def)

text \<open>
  Claim C5. When \<^verbatim>\<open>POST /\<close> answers 201, the table has gained exactly one row, at its end:
  it is owned by the caller, has no views and no \<^verbatim>\<open>sold_at\<close>, and its status is the
  requested one, or \<^verbatim>\<open>draft\<close> when the request names none; that status is \<^verbatim>\<open>draft\<close> or
  \<^verbatim>\<open>active\<close>. A request of an authenticated caller whose status is \<^verbatim>\<open>sold\<close> or \<^verbatim>\<open>archived\<close>
  is answered with status 400 and the validation error \<^verbatim>\<open>Invalid status\<close>, and nothing is
  stored.
\<close>

theorem create_result:
  "(create_product now new_id user b d = (Response 201 body, d') \<longrightarrow>
      (\<exists>p. products d' = products d @ [p] \<and> pid p = new_id \<and> Some (user_id p) = user
          \<and> views p = 0 \<and> sold_at p = None
          \<and> status p = (case body_status b of None \<Rightarrow> ''draft'' | Some s \<Rightarrow> s)
          \<and> status p \<in> {''draft'', ''active''}))
   \<and> (body_status b = Some ''sold'' \<or> body_status b = Some ''archived'' \<longrightarrow>
        create_product now new_id (Some uid) b d = (Response 400 (Errors (create_errors b)), d)
        \<and> (''status'', ''Invalid status'') \<in> set (create_errors b))"
proof (intro conjI impI)
  assume a: "create_product now new_id user b d = (Response 201 body, d')"
  then obtain uid where u: "user = Some uid"
    by (cases user) (auto simp: create_product_def unauthenticated_def)
  from a u have ok: "create_errors b = []"
    by (auto simp: create_product_def split: if_splits)
  let ?r = "\<lparr> ins_user_id = Some uid,
              ins_title = map_option trim (body_title b),
              ins_description = map_option trim (body_description b),
              ins_price = body_price b,
              ins_category_id = body_category_id b,
              ins_condition = body_condition b,
              ins_location = map_option trim (body_location b),
              ins_status = Some (status_or_draft (body_status b)) \<rparr>"
  from a u ok obtain p d1 where
    i: "insert_product (getSupabaseClient uid) now new_id ?r d = Inr (p, d1)"
    and d': "d' = add_images (getSupabaseClient uid) (pid p) (body_images b) d1"
    by (auto simp: create_product_def Let_def split: sum.splits)
  from insert_product_row [OF i] have w: "with_defaults now new_id ?r = Some p"
    and r: "products d1 = products d @ [p]" by simp_all
  from with_defaults_row [OF w] create_errors_status [OF ok] u r d'
  show "\<exists>p. products d' = products d @ [p] \<and> pid p = new_id \<and> Some (user_id p) = user
          \<and> views p = 0 \<and> sold_at p = None
          \<and> status p = (case body_status b of None \<Rightarrow> ''draft'' | Some s \<Rightarrow> s)
          \<and> status p \<in> {''draft'', ''active''}"
    by (simp add: products_add_images)
next
  assume "body_status b = Some ''sold'' \<or> body_status b = Some ''archived''"
  then show "(''status'', ''Invalid status'') \<in> set (create_errors b)"
    by (auto intro: status_rejected)
  then show "create_product now new_id (Some uid) b d
               = (Response 400 (Errors (create_errors b)), d)"
    by (auto simp: create_product_def)
qed

theorem create_result_witness:
  "create_product 9 4 (Some 10) chair_body shop
     = (Response 201 (Message_product ''Product created successfully''
          (Some (chair\<lparr>pid := 4, created_at := 9, updated_at := 9\<rparr>))),
        shop\<lparr>products := [chair, lamp, desk, chair\<lparr>pid := 4, created_at := 9, updated_at := 9\<rparr>]\<rparr>)
   \<and> status (last (products (snd (create_product 9 4 (Some 10) chair_body shop)))) = ''draft''
   \<and> create_product 9 4 (Some 10) (chair_body\<lparr>body_status := Some ''sold''\<rparr>) shop
       = (Response 400 (Errors [(''status'', ''Invalid status'')]), shop)"
proof -
  let ?body = "Message_product ''Product created successfully''
          (Some (chair\<lparr>pid := 4, created_at := 9, updated_at := 9\<rparr>))"
  let ?d = "shop\<lparr>products := [chair, lamp, desk, chair\<lparr>pid := 4, created_at := 9, updated_at := 9\<rparr>]\<rparr>"
  have e: "create_product 9 4 (Some 10) chair_body shop = (Response 201 ?body, ?d)"
    by (simp add: create_defs validator_defs store_defs shop_defs trim_examples)
  have v: "create_errors (chair_body\<lparr>body_status := Some ''sold''\<rparr>) = [(''status'', ''Invalid status'')]"
    by (simp add: create_defs validator_defs store_defs shop_defs trim_examples)
  from create_result [of 9 4 "Some 10" chair_body shop ?body ?d] e
  have "status (last (products ?d)) = ''draft''"
    by (auto simp: shop_defs)
  moreover from create_result [of 9 4 "Some 10" "chair_body\<lparr>body_status := Some ''sold''\<rparr>" shop _ _ 10] v
  have "create_product 9 4 (Some 10) (chair_body\<lparr>body_status := Some ''sold''\<rparr>) shop
       = (Response 400 (Errors [(''status'', ''Invalid status'')]), shop)"
    by simp
  ultimately show ?thesis using e by simp
qed

section \<open>Listing: pagination\<close>

lemma set_order_created_at_desc: "set (order_created_at_desc rows) = set rows"
  by (simp add: order_created_at_desc_def)

lemma length_order_created_at_desc: "length (order_created_at_desc rows) = length rows"
  by (simp add: order_created_at_desc_def)

lemma range_rows_subset: "range_rows f t rows = Inr page \<Longrightarrow> set page \<subseteq> set rows"
  by (auto simp: range_rows_def split: option.splits if_splits
      dest: in_set_takeD in_set_dropD)

lemma list_products_page:
  assumes "list_products supabase ilike user q d = (Response 200 (Products page pg), d')"
  shows "set page \<subseteq> set (list_matching supabase ilike user q d)"
    and "total pg = length (list_matching supabase ilike user q d)"
    and "limit pg = parsed_limit q" and "offset pg = parsed_offset q"
    and "hasMore pg = has_more (total pg) (parsed_offset q) (parsed_limit q)"
    and "list_errors q = []" and "d' = d"
  using assms
  by (auto simp: list_products_def Let_def split: if_splits sum.splits
      dest: range_rows_subset)

lemma takeWhile_all: "list_all P xs \<Longrightarrow> takeWhile P xs = xs"
  by (induction xs) auto

lemma parseInt_js_number: "js_number s = Some n \<Longrightarrow> parseInt s = Some n"
  by (auto simp: js_number_def parseInt_def takeWhile_all split: prod.splits if_splits)

lemma optional_Nil: "optional v ok f m = [] \<longleftrightarrow> (\<forall>x. v = Some x \<longrightarrow> ok x)"
  by (auto simp: optional_def check_def split: option.splits)

lemma list_errors_limit:
  assumes "list_errors q = []"
  shows "\<exists>l. parsed_limit q = Some l \<and> 1 \<le> l \<and> l \<le> 100
            \<and> (case q_limit q of None \<Rightarrow> l = 20 | Some s \<Rightarrow> js_number s = Some l)"
proof (cases "q_limit q")
  case None
  then show ?thesis by (simp add: parsed_limit_def)
next
  case (Some s)
  with assms have "isInt 1 (Some 100) s"
    by (simp add: list_errors_def optional_Nil)
  then obtain n where "js_number s = Some n" "1 \<le> n" "n \<le> 100"
    by (auto simp: isInt_def split: option.splits)
  with Some show ?thesis by (simp add: parsed_limit_def parseInt_js_number)
qed

lemma list_errors_offset:
  assumes "list_errors q = []"
  shows "\<exists>off. parsed_offset q = Some off \<and> 0 \<le> off
            \<and> (case q_offset q of None \<Rightarrow> off = 0 | Some s \<Rightarrow> js_number s = Some off)"
proof (cases "q_offset q")
  case None
  then show ?thesis by (simp add: parsed_offset_def)
next
  case (Some s)
  with assms have "isInt 0 None s"
    by (simp add: list_errors_def optional_Nil)
  then obtain n where "js_number s = Some n" "0 \<le> n"
    by (auto simp: isInt_def split: option.splits)
  with Some show ?thesis by (simp add: parsed_offset_def parseInt_js_number)
qed

lemma limit_rejected:
  assumes "q_limit q = Some s" "\<not> isInt 1 (Some 100) s"
  shows "(''limit'', ''Invalid value'') \<in> set (list_errors q)"
  using assms by (simp add: list_errors_def optional_def check_def)

lemma offset_rejected:
  assumes "q_offset q = Some s" "\<not> isInt 0 None s"
  shows "(''offset'', ''Invalid value'') \<in> set (list_errors q)"
  using assms by (simp add: list_errors_def optional_def check_def)

text \<open>
  Claim C9. When \<^verbatim>\<open>GET /\<close> answers 200, the reported limit is an integer from 1 to 100, the
  one the parameter denotes or 20 without parameter, and the reported offset is an
  integer from 0 on, the one the parameter denotes or 0 without parameter; \<^verbatim>\<open>total\<close> is the
  number of all rows the query matches and \<^verbatim>\<open>hasMore\<close> says whether \<^verbatim>\<open>total\<close> exceeds offset
  plus limit. A limit that denotes an integer outside 1..100, or an offset that denotes a
  negative integer, is answered with status 400 and the list of validation errors.
\<close>

theorem list_pagination:
  "(list_products supabase ilike user q d = (Response 200 (Products page pg), d') \<longrightarrow>
      (\<exists>l off. limit pg = Some l \<and> offset pg = Some off
         \<and> 1 \<le> l \<and> l \<le> 100 \<and> 0 \<le> off
         \<and> (case q_limit q of None \<Rightarrow> l = 20 | Some s \<Rightarrow> js_number s = Some l)
         \<and> (case q_offset q of None \<Rightarrow> off = 0 | Some s \<Rightarrow> js_number s = Some off)
         \<and> total pg = length (list_matching supabase ilike user q d)
         \<and> hasMore pg = (off + l < int (total pg))))
   \<and> ((q_limit q = Some s \<and> js_number s = Some n \<and> (n < 1 \<or> 100 < n))
        \<or> (q_offset q = Some s \<and> js_number s = Some n \<and> n < 0) \<longrightarrow>
        list_products supabase ilike user q d = (Response 400 (Errors (list_errors q)), d)
        \<and> list_errors q \<noteq> [])"
proof (intro conjI impI)
  assume a: "list_products supabase ilike user q d = (Response 200 (Products page pg), d')"
  note p = list_products_page [OF a]
  from list_errors_limit [OF p(6)] obtain l where
    l: "parsed_limit q = Some l" "1 \<le> l" "l \<le> 100"
       "case q_limit q of None \<Rightarrow> l = 20 | Some s \<Rightarrow> js_number s = Some l" by blast
  from list_errors_offset [OF p(6)] obtain off where
    off: "parsed_offset q = Some off" "0 \<le> off"
       "case q_offset q of None \<Rightarrow> off = 0 | Some s \<Rightarrow> js_number s = Some off" by blast
  have "hasMore pg = (off + l < int (total pg))"
    using p(5) l(1) off(1) by (simp add: has_more_def)
  with p l off show "\<exists>l off. limit pg = Some l \<and> offset pg = Some off
         \<and> 1 \<le> l \<and> l \<le> 100 \<and> 0 \<le> off
         \<and> (case q_limit q of None \<Rightarrow> l = 20 | Some s \<Rightarrow> js_number s = Some l)
         \<and> (case q_offset q of None \<Rightarrow> off = 0 | Some s \<Rightarrow> js_number s = Some off)
         \<and> total pg = length (list_matching supabase ilike user q d)
         \<and> hasMore pg = (off + l < int (total pg))"
    by auto
next
  assume "(q_limit q = Some s \<and> js_number s = Some n \<and> (n < 1 \<or> 100 < n))
        \<or> (q_offset q = Some s \<and> js_number s = Some n \<and> n < 0)"
  then show "list_errors q \<noteq> []"
    using limit_rejected [of q s] offset_rejected [of q s]
    by (auto simp: isInt_def)
  then show "list_products supabase ilike user q d
               = (Response 400 (Errors (list_errors q)), d)"
    by (simp add: list_products_def)
qed

theorem list_pagination_witness:
  "list_products ServiceKey no_ilike (Some 10)
      (no_query\<lparr>q_user_id := Some 10, q_limit := Some ''1'', q_offset := Some ''0''\<rparr>) shop
     = (Response 200 (Products [lamp]
          \<lparr> total = 2, limit = Some 1, offset = Some 0, hasMore = True \<rparr>), shop)
   \<and> length (list_matching ServiceKey no_ilike (Some 10)
      (no_query\<lparr>q_user_id := Some 10, q_limit := Some ''1'', q_offset := Some ''0''\<rparr>) shop) = 2
   \<and> js_number ''101'' = Some 101
   \<and> code (fst (list_products ServiceKey no_ilike None (no_query\<lparr>q_limit := Some ''101''\<rparr>) shop))
       = 400
   \<and> js_number ''-1'' = Some (- 1)
   \<and> code (fst (list_products ServiceKey no_ilike None (no_query\<lparr>q_offset := Some ''-1''\<rparr>) shop))
       = 400"
proof -
  let ?q = "no_query\<lparr>q_user_id := Some 10, q_limit := Some ''1'', q_offset := Some ''0''\<rparr>"
  let ?pg = "\<lparr> total = 2, limit = Some 1, offset = Some 0, hasMore = True \<rparr>"
  have e: "list_products ServiceKey no_ilike (Some 10) ?q shop
             = (Response 200 (Products [lamp] ?pg), shop)"
    by (simp add: list_defs validator_defs store_defs shop_defs)
  have n: "js_number ''101'' = Some 101" "js_number ''-1'' = Some (- 1)"
    by (simp_all add: validator_defs)
  have q: "q_limit (no_query\<lparr>q_limit := Some ''101''\<rparr>) = Some ''101''"
    "q_offset (no_query\<lparr>q_offset := Some ''-1''\<rparr>) = Some ''-1''"
    by simp_all
  from list_pagination [of ServiceKey no_ilike "Some 10" ?q shop "[lamp]" ?pg shop] e
  have "length (list_matching ServiceKey no_ilike (Some 10) ?q shop) = 2"
    by auto
  moreover
  from list_pagination [where q = "no_query\<lparr>q_limit := Some ''101''\<rparr>" and s = "''101''"
      and n = 101 and supabase = ServiceKey and ilike = no_ilike and user = None and d = shop] n q
  have "code (fst (list_products ServiceKey no_ilike None
      (no_query\<lparr>q_limit := Some ''101''\<rparr>) shop)) = 400"
    by simp
  moreover
  from list_pagination [where q = "no_query\<lparr>q_offset := Some ''-1''\<rparr>" and s = "''-1''"
      and n = "- 1" and supabase = ServiceKey and ilike = no_ilike and user = None and d = shop] n q
  have "code (fst (list_products ServiceKey no_ilike None
      (no_query\<lparr>q_offset := Some ''-1''\<rparr>) shop)) = 400"
    by simp
  ultimately show ?thesis using e n by simp
qed

section \<open>Listing: who sees what\<close>

lemma matches_append: "matches ilike (xs @ ys) p \<longleftrightarrow> matches ilike xs p \<and> matches ilike ys p"
  by (simp add: matches_def)

lemma other_filters_indep: "other_filters (q\<lparr>q_user_id := a, q_status := b\<rparr>) = other_filters q"
  by (simp add: other_filters_def)

lemma foreign_filters:
  assumes "user = None \<or> q_user_id q = None \<or> q_user_id q \<noteq> user"
  shows "visibility_filters user q = [Eq_status ''active'']"
  using assms by (auto simp: visibility_filters_def)

lemma foreign_matching:
  assumes "user = None \<or> q_user_id q = None \<or> q_user_id q \<noteq> user"
  shows "list_matching supabase ilike user q d
           = order_created_at_desc
               (filter (\<lambda>p. status p = ''active'' \<and> matches ilike (other_filters q) p) (products d))"
proof -
  have "select_products supabase ilike (visibility_filters user q @ other_filters q) d
          = filter (\<lambda>p. status p = ''active'' \<and> matches ilike (other_filters q) p) (products d)"
    unfolding select_products_def foreign_filters [OF assms]
    by (rule filter_cong) (auto simp: matches_def permits_def products_select_using_def)
  then show ?thesis by (simp add: list_matching_def)
qed

text \<open>
  When the caller is anonymous, or names no \<^verbatim>\<open>user_id\<close>, or names one that is not the
  caller's own id, every row the query matches, and so every row of a page it returns, is
  active, whatever the other filters and whatever the client.
\<close>

lemma foreign_page_active:
  assumes "user = None \<or> q_user_id q = None \<or> q_user_id q \<noteq> user"
  shows "\<forall>p\<in>set (list_matching supabase ilike user q d). status p = ''active''"
    and "list_products supabase ilike user q d = (Response 200 (Products page pg), d') \<Longrightarrow>
           \<forall>p\<in>set page. status p = ''active''"
proof -
  show m: "\<forall>p\<in>set (list_matching supabase ilike user q d). status p = ''active''"
    by (simp add: foreign_matching [OF assms] set_order_created_at_desc)
  assume "list_products supabase ilike user q d = (Response 200 (Products page pg), d')"
  from list_products_page(1) [OF this] m show "\<forall>p\<in>set page. status p = ''active''"
    by blast
qed

text \<open>
  In the other branch the handler asks for the caller's rows, in every status or in the
  one the request names; the store answers with those of them that the select policy
  shows to the module-level client.
\<close>

lemma own_matching:
  assumes "user = Some u" "q_user_id q = Some u"
  shows "list_matching supabase ilike user q d
           = order_created_at_desc
               (filter (\<lambda>p. permits supabase (products_select_using supabase p)
                          \<and> user_id p = u
                          \<and> (case q_status q of None \<Rightarrow> True | Some s \<Rightarrow> status p = s)
                          \<and> matches ilike (other_filters q) p) (products d))"
proof -
  have v: "visibility_filters user q
     = Eq_user_id u # (case q_status q of None \<Rightarrow> [] | Some s \<Rightarrow> [Eq_status s])"
    using assms by (simp add: visibility_filters_def)
  have "select_products supabase ilike (visibility_filters user q @ other_filters q) d
          = filter (\<lambda>p. permits supabase (products_select_using supabase p)
                          \<and> user_id p = u
                          \<and> (case q_status q of None \<Rightarrow> True | Some s \<Rightarrow> status p = s)
                          \<and> matches ilike (other_filters q) p) (products d)"
    unfolding select_products_def v
    by (intro filter_cong) (auto simp: matches_def split: option.splits)
  then show ?thesis by (simp add: list_matching_def)
qed

text \<open>
  Claim C6 says that a caller who names the caller's own id as \<^verbatim>\<open>user_id\<close> gets the
  caller's listings in every status. The handler leaves the status open in that branch, but
  it sends the query through the module-level client and not, as \<^verbatim>\<open>GET /profile/listings\<close>
  does, through the caller's own: whenever that client is subject to row-level security
  and is not signed in as the caller, the query matches only the active ones among the
  caller's listings, and a page it returns holds no other.
\<close>

theorem own_listings_hidden:
  assumes "user = Some u" and "q_user_id q = Some u"
    and "supabase \<noteq> ServiceKey" and "auth_uid supabase \<noteq> Some u"
  shows "list_matching supabase ilike user q d
           = order_created_at_desc
               (filter (\<lambda>p. status p = ''active'' \<and> user_id p = u
                          \<and> (case q_status q of None \<Rightarrow> True | Some s \<Rightarrow> status p = s)
                          \<and> matches ilike (other_filters q) p) (products d))
       \<and> (list_products supabase ilike user q d = (Response 200 (Products page pg), d') \<longrightarrow>
            (\<forall>p\<in>set page. status p = ''active'' \<and> user_id p = u))"
proof
  have "filter (\<lambda>p. permits supabase (products_select_using supabase p)
                          \<and> user_id p = u
                          \<and> (case q_status q of None \<Rightarrow> True | Some s \<Rightarrow> status p = s)
                          \<and> matches ilike (other_filters q) p) (products d)
          = filter (\<lambda>p. status p = ''active'' \<and> user_id p = u
                          \<and> (case q_status q of None \<Rightarrow> True | Some s \<Rightarrow> status p = s)
                          \<and> matches ilike (other_filters q) p) (products d)"
    using assms(3,4)
    by (intro filter_cong) (auto simp: permits_def products_select_using_def)
  then show m: "list_matching supabase ilike user q d
           = order_created_at_desc
               (filter (\<lambda>p. status p = ''active'' \<and> user_id p = u
                          \<and> (case q_status q of None \<Rightarrow> True | Some s \<Rightarrow> status p = s)
                          \<and> matches ilike (other_filters q) p) (products d))"
    by (simp only: own_matching [OF assms(1,2)])
  show "list_products supabase ilike user q d = (Response 200 (Products page pg), d') \<longrightarrow>
            (\<forall>p\<in>set page. status p = ''active'' \<and> user_id p = u)"
  proof
    assume "list_products supabase ilike user q d = (Response 200 (Products page pg), d')"
    from list_products_page(1) [OF this]
    have "set page \<subseteq> set (list_matching supabase ilike user q d)" .
    then show "\<forall>p\<in>set page. status p = ''active'' \<and> user_id p = u"
      unfolding m by (auto simp: set_order_created_at_desc)
  qed
qed

theorem own_listings_hidden_witness:
  "products shop = [chair, lamp, desk]
   \<and> user_id chair = 10 \<and> status chair = ''draft''
   \<and> user_id lamp = 10 \<and> status lamp = ''active''
   \<and> list_products AnonKey no_ilike (Some 10) (no_query\<lparr>q_user_id := Some 10\<rparr>) shop
       = (Response 200 (Products [lamp]
            \<lparr> total = 1, limit = Some 20, offset = Some 0, hasMore = False \<rparr>), shop)
   \<and> list_products AnonKey no_ilike (Some 10)
        (no_query\<lparr>q_user_id := Some 10, q_status := Some ''draft''\<rparr>) shop
       = (Response 200 (Products []
            \<lparr> total = 0, limit = Some 20, offset = Some 0, hasMore = False \<rparr>), shop)"
proof -
  let ?q = "no_query\<lparr>q_user_id := Some 10\<rparr>"
  let ?pg = "\<lparr> total = 1, limit = Some 20, offset = Some 0, hasMore = False \<rparr>"
  have k: "products shop = [chair, lamp, desk]" "user_id chair = 10"
    "status chair = ''draft''" "user_id lamp = 10" "status lamp = ''active''"
    by (simp_all add: shop_defs)
  have u: "q_user_id ?q = Some 10" "AnonKey \<noteq> ServiceKey" "auth_uid AnonKey \<noteq> Some 10"
    by (simp_all add: no_query_def)
  have r: "list_products AnonKey no_ilike (Some 10) ?q shop
            = (Response 200 (Products [lamp] ?pg), shop)"
    by (simp add: list_defs validator_defs store_defs shop_defs)
  have r': "list_products AnonKey no_ilike (Some 10) (?q\<lparr>q_status := Some ''draft''\<rparr>) shop
       = (Response 200 (Products []
            \<lparr> total = 0, limit = Some 20, offset = Some 0, hasMore = False \<rparr>), shop)"
    by (simp add: list_defs validator_defs store_defs shop_defs)
  from own_listings_hidden [OF refl u, where d = shop and ilike = no_ilike
      and page = "[lamp]" and pg = ?pg and d' = shop] r
  have "\<forall>p\<in>set [lamp]. status p = ''active'' \<and> user_id p = 10"
    by simp
  then show ?thesis
    using k r r' by simp
qed

lemma list_errors_indep:
  "list_errors q = [] \<Longrightarrow> list_errors (q\<lparr>q_user_id := None, q_status := None\<rparr>) = []"
  by (simp add: list_errors_def optional_def)

text \<open>
  Claim C10. In \<^verbatim>\<open>GET /\<close>, when the caller is anonymous, or names no \<^verbatim>\<open>user_id\<close>, or names one
  that is not the caller's own id, the query matches the active rows of all owners that
  pass the remaining filters (category, price range, condition, search): neither
  \<^verbatim>\<open>user_id\<close> nor \<^verbatim>\<open>status\<close> restricts it, and a request that passes validation is answered
  as the same request without these two parameters.
\<close>

theorem list_foreign_filters_dropped:
  assumes "user = None \<or> q_user_id q = None \<or> q_user_id q \<noteq> user"
  shows "list_matching supabase ilike user q d
           = order_created_at_desc
               (filter (\<lambda>p. status p = ''active'' \<and> matches ilike (other_filters q) p)
                  (products d))
       \<and> (list_errors q = [] \<longrightarrow>
            list_products supabase ilike user q d
              = list_products supabase ilike user (q\<lparr>q_user_id := None, q_status := None\<rparr>) d)"
proof (intro conjI impI)
  show m: "list_matching supabase ilike user q d
           = order_created_at_desc
               (filter (\<lambda>p. status p = ''active'' \<and> matches ilike (other_filters q) p)
                  (products d))"
    by (rule foreign_matching [OF assms])
  let ?q = "q\<lparr>q_user_id := None, q_status := None\<rparr>"
  have m': "list_matching supabase ilike user ?q d = list_matching supabase ilike user q d"
    unfolding m by (subst foreign_matching) (simp_all add: other_filters_indep)
  assume "list_errors q = []"
  moreover have "range_from ?q = range_from q" "range_to ?q = range_to q"
    "parsed_limit ?q = parsed_limit q" "parsed_offset ?q = parsed_offset q"
    by (simp_all add: range_from_def range_to_def parsed_limit_def parsed_offset_def)
  ultimately show "list_products supabase ilike user q d
      = list_products supabase ilike user ?q d"
    using list_errors_indep [of q] m' by (simp add: list_products_def Let_def cong: sum.case_cong)
qed

theorem list_foreign_filters_dropped_witness:
  "list_matching AnonKey no_ilike None
      (no_query\<lparr>q_user_id := Some 11, q_status := Some ''sold''\<rparr>) shop = [lamp]
   \<and> user_id lamp = 10 \<and> status lamp = ''active''
   \<and> list_products AnonKey no_ilike None
        (no_query\<lparr>q_user_id := Some 11, q_status := Some ''sold''\<rparr>) shop
       = list_products AnonKey no_ilike None no_query shop
   \<and> fst (list_products AnonKey no_ilike None no_query shop)
       = Response 200 (Products [lamp]
           \<lparr> total = 1, limit = Some 20, offset = Some 0, hasMore = False \<rparr>)"
proof -
  let ?q = "no_query\<lparr>q_user_id := Some 11, q_status := Some ''sold''\<rparr>"
  have q: "?q\<lparr>q_user_id := None, q_status := None\<rparr> = no_query"
    by (simp add: no_query_def)
  have e: "list_errors ?q = []"
    by (simp add: list_errors_def validator_defs no_query_def)
  have f: "order_created_at_desc
             (filter (\<lambda>p. status p = ''active'' \<and> matches no_ilike (other_filters ?q) p)
                (products shop)) = [lamp]"
    by (simp add: list_defs store_defs shop_defs)
  have r: "fst (list_products AnonKey no_ilike None no_query shop)
       = Response 200 (Products [lamp]
           \<lparr> total = 1, limit = Some 20, offset = Some 0, hasMore = False \<rparr>)"
    by (simp add: list_defs validator_defs store_defs shop_defs)
  have s: "user_id lamp = 10" "status lamp = ''active''"
    by (simp_all add: shop_defs)
  show ?thesis
    using q e f r s
      list_foreign_filters_dropped [where user = None and q = ?q and d = shop
        and supabase = AnonKey and ilike = no_ilike]
    by simp
qed

section \<open>What an update statement leaves\<close>

lemma first_violation_None:
  "first_violation f xs = None \<Longrightarrow> x \<in> set xs \<Longrightarrow> f x = None"
  by (induction xs) (auto split: option.splits)

lemma update_products_effect:
  assumes "update_products c now u conds d = Inr (new, d')"
  shows "d' = d\<lparr>products := map (\<lambda>p. if matches no_ilike conds p \<and> permits c (products_update_using c p)
                                     then new_row now u p else p) (products d)\<rparr>"
    and "new = map (new_row now u)
                 (filter (\<lambda>p. matches no_ilike conds p \<and> permits c (products_update_using c p)) (products d))"
    and "\<forall>p\<in>set (products d). matches no_ilike conds p \<and> permits c (products_update_using c p) \<longrightarrow>
           permits c (products_update_check c (new_row now u p))"
proof -
  let ?target = "\<lambda>p. matches no_ilike conds p \<and> permits c (products_update_using c p)"
  let ?rows = "map (\<lambda>p. if ?target p then new_row now u p else p) (products d)"
  let ?new = "map (new_row now u) (filter ?target (products d))"
  from assms have v: "first_violation
      (\<lambda>p. row_violation (permits c (products_update_check c p)) d ?rows p) ?new = None"
    and e: "new = ?new" "d' = d\<lparr>products := ?rows\<rparr>"
    by (auto simp: update_products_def Let_def split: if_splits option.splits)
  show "d' = d\<lparr>products := ?rows\<rparr>" by (rule e)
  show "new = ?new" by (rule e)
  show "\<forall>p\<in>set (products d). ?target p \<longrightarrow> permits c (products_update_check c (new_row now u p))"
  proof (intro ballI impI)
    fix p assume "p \<in> set (products d)" "?target p"
    then have "new_row now u p \<in> set ?new" by auto
    from first_violation_None [OF v this]
    show "permits c (products_update_check c (new_row now u p))"
      by (auto simp: row_violation_def split: if_splits)
  qed
qed

lemma update_single_effect:
  assumes "update_single c now u conds d = Inr (p', d')"
  shows "update_products c now u conds d = Inr ([p'], d')"
  using assms
  by (auto simp: update_single_def split: sum.splits prod.splits elim: single.elims)

lemma user_id_new_row: "user_id (new_row now u p) = patch (upd_user_id u) (user_id p)"
  by (simp add: new_row_def update_updated_at_column_def set_columns_def)

lemma sold_at_new_row: "sold_at (new_row now u p) = patch (upd_sold_at u) (sold_at p)"
  by (simp add: new_row_def update_updated_at_column_def set_columns_def)

lemma update_products_user_id:
  assumes "update_products (UserToken uid) now u conds d = Inr (new, d')"
  shows "map user_id (products d') = map user_id (products d)"
proof -
  note e = update_products_effect [OF assms]
  have "user_id (new_row now u p) = user_id p"
    if "p \<in> set (products d)" "matches no_ilike conds p"
      "permits (UserToken uid) (products_update_using (UserToken uid) p)" for p
    using e(3) that
    by (auto simp: permits_def products_update_using_def products_update_check_def)
  then show ?thesis unfolding e(1) by (auto simp: comp_def)
qed

lemma views_only_user_id:
  assumes "update_products c now (no_updates\<lparr>upd_views := Some v\<rparr>) conds d = Inr (new, d')"
  shows "map user_id (products d') = map user_id (products d)"
  unfolding update_products_effect(1) [OF assms]
  by (simp add: comp_def user_id_new_row no_updates_def)

text \<open>
  Claim C8. No request changes the owner of a stored listing: after \<^verbatim>\<open>PUT /:id\<close>, whatever
  its body, after \<^verbatim>\<open>PATCH /:id/status\<close> and after \<^verbatim>\<open>GET /:id\<close> every row of the table has the
  \<^verbatim>\<open>user_id\<close> it had before. The body of \<^verbatim>\<open>PUT /:id\<close> reaches the store unfiltered, but the
  request only touches rows of the caller, and the policy's \<^verbatim>\<open>WITH CHECK\<close> refuses a new row
  whose \<^verbatim>\<open>user_id\<close> is not the caller's.
\<close>

theorem owner_immutable:
  "map user_id (products (snd (update_product now date user i b d))) = map user_id (products d)
   \<and> map user_id (products (snd (set_status now date user i st d))) = map user_id (products d)
   \<and> map user_id (products (snd (get_product supabase now user i d))) = map user_id (products d)"
proof (intro conjI)
  show "map user_id (products (snd (update_product now date user i b d))) = map user_id (products d)"
    by (auto simp: update_product_def getSupabaseClient_def split: option.splits sum.splits
        dest!: update_single_effect update_products_user_id)
  show "map user_id (products (snd (set_status now date user i st d))) = map user_id (products d)"
    by (auto simp: set_status_def getSupabaseClient_def split: option.splits sum.splits
        dest!: update_single_effect update_products_user_id)
  show "map user_id (products (snd (get_product supabase now user i d))) = map user_id (products d)"
    by (auto simp: get_product_def read_update_def split: sum.splits dest!: views_only_user_id)
qed

theorem owner_immutable_witness:
  "update_product 8 9 (Some 10) 1 (no_updates\<lparr>upd_user_id := Some 11, upd_price := Some 5\<rparr>) shop
     = (Response 400 (Error_store Rls_violation), shop)
   \<and> products (snd (update_product 8 9 (Some 10) 1
         (no_updates\<lparr>upd_user_id := Some 10, upd_price := Some 5\<rparr>) shop))
       = [chair\<lparr>price := 5, updated_at := 8\<rparr>, lamp, desk]
   \<and> map user_id (products (snd (update_product 8 9 (Some 10) 1
         (no_updates\<lparr>upd_user_id := Some 10, upd_price := Some 5\<rparr>) shop))) = [10, 10, 11]"
proof -
  have a: "update_product 8 9 (Some 10) 1
             (no_updates\<lparr>upd_user_id := Some 11, upd_price := Some 5\<rparr>) shop
           = (Response 400 (Error_store Rls_violation), shop)"
    by (simp add: update_defs validator_defs store_defs shop_defs)
  have b: "products (snd (update_product 8 9 (Some 10) 1
         (no_updates\<lparr>upd_user_id := Some 10, upd_price := Some 5\<rparr>) shop))
       = [chair\<lparr>price := 5, updated_at := 8\<rparr>, lamp, desk]"
    by (simp add: update_defs validator_defs store_defs shop_defs)
  have c: "map user_id (products shop) = [10, 10, 11]"
    by (simp add: shop_defs)
  show ?thesis
    using a b c
      owner_immutable [of 8 9 "Some 10" 1 "no_updates\<lparr>upd_user_id := Some 10, upd_price := Some 5\<rparr>"
        shop]
    by simp
qed

section \<open>The sold-at stamp\<close>

lemma list_all2_map_self: "list_all2 P xs (map f xs) \<longleftrightarrow> (\<forall>x\<in>set xs. P x (f x))"
  by (simp add: list_all2_map2 list_all2_same)

lemma list_all2_self: "list_all2 (\<lambda>old new. P old new) xs xs \<longleftrightarrow> (\<forall>x\<in>set xs. P x x)"
  by (simp add: list_all2_same)

lemma update_single_sold_at:
  assumes "update_single c now u conds d = Inr (p', d')"
  shows "(\<forall>v. upd_sold_at u = Some v \<longrightarrow> sold_at p' = v) \<and> p' \<in> set (products d')"
    and "list_all2 (\<lambda>old new. sold_at new = sold_at old \<or> Some (sold_at new) = upd_sold_at u)
           (products d) (products d')"
proof -
  let ?target = "\<lambda>p. matches no_ilike conds p \<and> permits c (products_update_using c p)"
  note e = update_products_effect [OF update_single_effect [OF assms]]
  have "p' \<in> set (map (new_row now u) (filter ?target (products d)))"
    using e(2) [symmetric] by simp
  then obtain q where q: "q \<in> set (products d)" "?target q" "p' = new_row now u q"
    by auto
  then have "p' \<in> set (products d')"
    unfolding e(1) by force
  moreover have "\<forall>v. upd_sold_at u = Some v \<longrightarrow> sold_at p' = v"
    unfolding q(3) by (simp add: sold_at_new_row)
  ultimately show "(\<forall>v. upd_sold_at u = Some v \<longrightarrow> sold_at p' = v) \<and> p' \<in> set (products d')"
    by simp
  have "sold_at (new_row now u p) = sold_at p \<or> Some (sold_at (new_row now u p)) = upd_sold_at u" for p
    by (cases "upd_sold_at u") (simp_all add: sold_at_new_row)
  then show "list_all2 (\<lambda>old new. sold_at new = sold_at old \<or> Some (sold_at new) = upd_sold_at u)
           (products d) (products d')"
    unfolding e(1) by (simp add: list_all2_map_self)
qed

lemma sold_at_status_updates:
  "upd_sold_at (status_updates date st) = (if st = Some ''sold'' then Some (Some date) else None)"
  by (simp add: status_updates_def no_updates_def)

lemma sold_at_stamp_sold_at:
  "upd_sold_at (stamp_sold_at date (sanitized b))
     = (if upd_status b = Some ''sold'' \<and> (upd_sold_at b = None \<or> upd_sold_at b = Some None)
        then Some (Some date) else upd_sold_at b)"
  by (auto simp: stamp_sold_at_def sanitized_def)

lemma set_status_outcome:
  "snd (set_status now date user i st d) = d
   \<or> (\<exists>uid p'. update_single (getSupabaseClient uid) now (status_updates date st)
         [Eq_id i, Eq_user_id uid] d = Inr (p', snd (set_status now date user i st d)))"
  by (auto simp: set_status_def split: option.splits sum.splits)

lemma update_product_outcome:
  "snd (update_product now date user i b d) = d
   \<or> (\<exists>uid p'. update_single (getSupabaseClient uid) now (stamp_sold_at date (sanitized b))
         [Eq_id i, Eq_user_id uid] d = Inr (p', snd (update_product now date user i b d)))"
  by (auto simp: update_product_def split: option.splits sum.splits)

text \<open>
  Claim C1 does not hold as stated: marking a sold listing as sold once more replaces its
  \<^verbatim>\<open>sold_at\<close> (here 7) by the time of the request (9), and an update whose body carries
  \<^verbatim>\<open>sold_at: null\<close> clears it.
\<close>

theorem sold_at_restamped:
  "sold_at desk = Some 7 \<and> status desk = ''sold''
   \<and> set_status 8 9 (Some 11) 3 (Some ''sold'') shop
       = (Response 200 (Message_product ''Product status updated successfully''
            (Some (desk\<lparr>updated_at := 8, sold_at := Some 9\<rparr>))),
          shop\<lparr>products := [chair, lamp, desk\<lparr>updated_at := 8, sold_at := Some 9\<rparr>]\<rparr>)
   \<and> update_product 8 9 (Some 11) 3 (no_updates\<lparr>upd_sold_at := Some None\<rparr>) shop
       = (Response 200 (Message_product ''Product updated successfully''
            (Some (desk\<lparr>updated_at := 8, sold_at := None\<rparr>))),
          shop\<lparr>products := [chair, lamp, desk\<lparr>updated_at := 8, sold_at := None\<rparr>]\<rparr>)"
  by (simp add: update_defs validator_defs store_defs shop_defs)

text \<open>
  Claim C1, amended. \<^verbatim>\<open>PATCH /:id/status\<close>, and \<^verbatim>\<open>PUT /:id\<close> with a body without \<^verbatim>\<open>sold_at\<close>,
  leave the \<^verbatim>\<open>sold_at\<close> of every row as it was unless the new status is \<^verbatim>\<open>sold\<close>, in which
  case a row either keeps it or gets the time of the request: a transition to another
  status keeps the stamp and never clears it. A successful \<^verbatim>\<open>PATCH\<close> to \<^verbatim>\<open>sold\<close> returns the
  listing stamped with the time of the request, whatever stamp it had, and so does a
  successful \<^verbatim>\<open>PUT\<close> to \<^verbatim>\<open>sold\<close> whose body has no \<^verbatim>\<open>sold_at\<close> or \<^verbatim>\<open>null\<close>. Any other
  successful \<^verbatim>\<open>PUT\<close> whose body carries \<^verbatim>\<open>sold_at\<close> stores the value it carries.
\<close>

theorem sold_at_stamping:
  "list_all2 (\<lambda>old new. sold_at new = sold_at old \<or> (st = Some ''sold'' \<and> sold_at new = Some date))
      (products d) (products (snd (set_status now date user i st d)))
   \<and> (set_status now date user i (Some ''sold'') d = (Response 200 (Message_product m (Some p')), d')
        \<longrightarrow> sold_at p' = Some date \<and> p' \<in> set (products d'))
   \<and> (upd_sold_at b = None \<longrightarrow>
        list_all2 (\<lambda>old new. sold_at new = sold_at old
                      \<or> (upd_status b = Some ''sold'' \<and> sold_at new = Some date))
          (products d) (products (snd (update_product now date user i b d))))
   \<and> (upd_sold_at b = Some v \<and> (v \<noteq> None \<or> upd_status b \<noteq> Some ''sold'')
        \<and> update_product now date user i b d = (Response 200 (Message_product m (Some p')), d')
        \<longrightarrow> sold_at p' = v \<and> p' \<in> set (products d'))
   \<and> (upd_status b = Some ''sold'' \<and> (upd_sold_at b = None \<or> upd_sold_at b = Some None)
        \<and> update_product now date user i b d = (Response 200 (Message_product m (Some p')), d')
        \<longrightarrow> sold_at p' = Some date \<and> p' \<in> set (products d'))"
proof -
  let ?P = "\<lambda>old new. sold_at new = sold_at old \<or> (st = Some ''sold'' \<and> sold_at new = Some date)"
  from set_status_outcome [of now date user i st d]
  have 1: "list_all2 ?P (products d) (products (snd (set_status now date user i st d)))"
  proof
    assume "snd (set_status now date user i st d) = d"
    then show ?thesis by (simp add: list_all2_same)
  next
    assume "\<exists>uid p'. update_single (getSupabaseClient uid) now (status_updates date st)
         [Eq_id i, Eq_user_id uid] d = Inr (p', snd (set_status now date user i st d))"
    then obtain uid p' where "update_single (getSupabaseClient uid) now (status_updates date st)
         [Eq_id i, Eq_user_id uid] d = Inr (p', snd (set_status now date user i st d))" by blast
    from update_single_sold_at(2) [OF this] show ?thesis
      by (rule list_all2_mono) (auto simp: sold_at_status_updates split: if_splits)
  qed
  have 2: "sold_at p' = Some date \<and> p' \<in> set (products d')"
    if "set_status now date user i (Some ''sold'') d
          = (Response 200 (Message_product m (Some p')), d')"
  proof -
    from that obtain uid where "update_single (getSupabaseClient uid) now
        (status_updates date (Some ''sold'')) [Eq_id i, Eq_user_id uid] d = Inr (p', d')"
      by (auto simp: set_status_def unauthenticated_def
          split: option.splits sum.splits if_splits)
    from update_single_sold_at(1) [OF this] show ?thesis
      by (simp add: sold_at_status_updates)
  qed
  let ?Q = "\<lambda>old new. sold_at new = sold_at old
                      \<or> (upd_status b = Some ''sold'' \<and> sold_at new = Some date)"
  have 3: "list_all2 ?Q (products d) (products (snd (update_product now date user i b d)))"
    if n: "upd_sold_at b = None"
    using update_product_outcome [of now date user i b d]
  proof
    assume "snd (update_product now date user i b d) = d"
    then show ?thesis by (simp add: list_all2_same)
  next
    assume "\<exists>uid p'. update_single (getSupabaseClient uid) now (stamp_sold_at date (sanitized b))
         [Eq_id i, Eq_user_id uid] d = Inr (p', snd (update_product now date user i b d))"
    then obtain uid p' where "update_single (getSupabaseClient uid) now
         (stamp_sold_at date (sanitized b))
         [Eq_id i, Eq_user_id uid] d = Inr (p', snd (update_product now date user i b d))"
      by blast
    from update_single_sold_at(2) [OF this] n show ?thesis
      by (elim list_all2_mono) (auto simp: sold_at_stamp_sold_at split: if_splits)
  qed
  have 4: "sold_at p' = v \<and> p' \<in> set (products d')"
    if a: "upd_sold_at b = Some v \<and> (v \<noteq> None \<or> upd_status b \<noteq> Some ''sold'')
        \<and> update_product now date user i b d
            = (Response 200 (Message_product m (Some p')), d')"
  proof -
    from a obtain uid where "update_single (getSupabaseClient uid) now
        (stamp_sold_at date (sanitized b)) [Eq_id i, Eq_user_id uid] d = Inr (p', d')"
      by (auto simp: update_product_def unauthenticated_def
          split: option.splits sum.splits if_splits)
    from update_single_sold_at(1) [OF this] a show ?thesis
      by (auto simp: sold_at_stamp_sold_at)
  qed
  have 5: "sold_at p' = Some date \<and> p' \<in> set (products d')"
    if a: "upd_status b = Some ''sold'' \<and> (upd_sold_at b = None \<or> upd_sold_at b = Some None)
        \<and> update_product now date user i b d
            = (Response 200 (Message_product m (Some p')), d')"
  proof -
    from a obtain uid where "update_single (getSupabaseClient uid) now
        (stamp_sold_at date (sanitized b)) [Eq_id i, Eq_user_id uid] d = Inr (p', d')"
      by (auto simp: update_product_def unauthenticated_def
          split: option.splits sum.splits if_splits)
    from update_single_sold_at(1) [OF this] a show ?thesis
      by (auto simp: sold_at_stamp_sold_at)
  qed
  from 1 2 3 4 5 show ?thesis by blast
qed

theorem sold_at_stamping_witness:
  "set_status 8 9 (Some 11) 3 (Some ''archived'') shop
     = (Response 200 (Message_product ''Product status updated successfully''
          (Some (desk\<lparr>status := ''archived'', updated_at := 8\<rparr>))),
        shop\<lparr>products := [chair, lamp, desk\<lparr>status := ''archived'', updated_at := 8\<rparr>]\<rparr>)
   \<and> sold_at (desk\<lparr>status := ''archived'', updated_at := 8\<rparr>) = Some 7
   \<and> fst (set_status 8 9 (Some 10) 1 (Some ''sold'') shop)
       = Response 200 (Message_product ''Product status updated successfully''
           (Some (chair\<lparr>status := ''sold'', updated_at := 8, sold_at := Some 9\<rparr>)))
   \<and> products (snd (update_product 8 9 (Some 11) 3 (no_updates\<lparr>upd_price := Some 1\<rparr>) shop))
       = [chair, lamp, desk\<lparr>price := 1, updated_at := 8\<rparr>]
   \<and> fst (update_product 8 9 (Some 11) 3 (no_updates\<lparr>upd_sold_at := Some (Some 2)\<rparr>) shop)
       = Response 200 (Message_product ''Product updated successfully''
           (Some (desk\<lparr>updated_at := 8, sold_at := Some 2\<rparr>)))
   \<and> fst (update_product 8 9 (Some 10) 1 (no_updates\<lparr>upd_status := Some ''sold''\<rparr>) shop)
       = Response 200 (Message_product ''Product updated successfully''
           (Some (chair\<lparr>status := ''sold'', updated_at := 8, sold_at := Some 9\<rparr>)))"
proof -
  have a: "set_status 8 9 (Some 11) 3 (Some ''archived'') shop
     = (Response 200 (Message_product ''Product status updated successfully''
          (Some (desk\<lparr>status := ''archived'', updated_at := 8\<rparr>))),
        shop\<lparr>products := [chair, lamp, desk\<lparr>status := ''archived'', updated_at := 8\<rparr>]\<rparr>)"
    by (simp add: update_defs validator_defs store_defs shop_defs)
  have b: "set_status 8 9 (Some 10) 1 (Some ''sold'') shop
     = (Response 200 (Message_product ''Product status updated successfully''
           (Some (chair\<lparr>status := ''sold'', updated_at := 8, sold_at := Some 9\<rparr>))),
        shop\<lparr>products := [chair\<lparr>status := ''sold'', updated_at := 8, sold_at := Some 9\<rparr>,
                            lamp, desk]\<rparr>)"
    by (simp add: update_defs validator_defs store_defs shop_defs)
  have c: "update_product 8 9 (Some 11) 3 (no_updates\<lparr>upd_price := Some 1\<rparr>) shop
     = (Response 200 (Message_product ''Product updated successfully''
           (Some (desk\<lparr>price := 1, updated_at := 8\<rparr>))),
        shop\<lparr>products := [chair, lamp, desk\<lparr>price := 1, updated_at := 8\<rparr>]\<rparr>)"
    by (simp add: update_defs validator_defs store_defs shop_defs)
  have e: "update_product 8 9 (Some 11) 3 (no_updates\<lparr>upd_sold_at := Some (Some 2)\<rparr>) shop
     = (Response 200 (Message_product ''Product updated successfully''
           (Some (desk\<lparr>updated_at := 8, sold_at := Some 2\<rparr>))),
        shop\<lparr>products := [chair, lamp, desk\<lparr>updated_at := 8, sold_at := Some 2\<rparr>]\<rparr>)"
    by (simp add: update_defs validator_defs store_defs shop_defs)
  have s: "sold_at (desk\<lparr>status := ''archived'', updated_at := 8\<rparr>) = Some 7"
    by (simp add: shop_defs)
  have n: "upd_sold_at (no_updates\<lparr>upd_price := Some 1\<rparr>) = None"
    "upd_sold_at (no_updates\<lparr>upd_sold_at := Some (Some 2)\<rparr>) = Some (Some 2)"
    by (simp_all add: no_updates_def)
  from a c n(1)
    sold_at_stamping [where now = 8 and date = 9 and user = "Some 11" and i = 3
      and st = "Some ''archived''" and d = shop and b = "no_updates\<lparr>upd_price := Some 1\<rparr>"]
  have "list_all2 (\<lambda>old new. sold_at new = sold_at old) (products shop)
          [chair, lamp, desk\<lparr>status := ''archived'', updated_at := 8\<rparr>]"
    "list_all2 (\<lambda>old new. sold_at new = sold_at old) (products shop)
          [chair, lamp, desk\<lparr>price := 1, updated_at := 8\<rparr>]"
    by (simp_all add: no_updates_def)
  moreover from b
    sold_at_stamping [where now = 8 and date = 9 and user = "Some 10" and i = 1 and d = shop
      and m = "''Product status updated successfully''"
      and p' = "chair\<lparr>status := ''sold'', updated_at := 8, sold_at := Some 9\<rparr>"
      and d' = "shop\<lparr>products := [chair\<lparr>status := ''sold'', updated_at := 8, sold_at := Some 9\<rparr>,
                            lamp, desk]\<rparr>"]
  have "sold_at (chair\<lparr>status := ''sold'', updated_at := 8, sold_at := Some 9\<rparr>) = Some 9"
    by simp
  moreover from e n(2)
    sold_at_stamping [where now = 8 and date = 9 and user = "Some 11" and i = 3 and d = shop
      and b = "no_updates\<lparr>upd_sold_at := Some (Some 2)\<rparr>" and v = "Some 2"
      and m = "''Product updated successfully''"
      and p' = "desk\<lparr>updated_at := 8, sold_at := Some 2\<rparr>"
      and d' = "shop\<lparr>products := [chair, lamp, desk\<lparr>updated_at := 8, sold_at := Some 2\<rparr>]\<rparr>"]
  have "sold_at (desk\<lparr>updated_at := 8, sold_at := Some 2\<rparr>) = Some 2"
    by simp
  moreover have "fst (update_product 8 9 (Some 10) 1 (no_updates\<lparr>upd_status := Some ''sold''\<rparr>) shop)
      = Response 200 (Message_product ''Product updated successfully''
          (Some (chair\<lparr>status := ''sold'', updated_at := 8, sold_at := Some 9\<rparr>)))"
    by (simp add: update_defs validator_defs store_defs shop_defs)
  ultimately show ?thesis
    using a b c e s
      sold_at_stamping [where now = 8 and date = 9 and user = "Some 10" and i = 1 and d = shop
        and b = "no_updates\<lparr>upd_status := Some ''sold''\<rparr>"
        and m = "''Product updated successfully''"
        and p' = "chair\<lparr>status := ''sold'', updated_at := 8, sold_at := Some 9\<rparr>"
        and d' = "snd (update_product 8 9 (Some 10) 1
                         (no_updates\<lparr>upd_status := Some ''sold''\<rparr>) shop)"]
    by (simp add: prod_eq_iff no_updates_def)
qed

section \<open>Counting views\<close>

lemma views_new_row:
  "new_row now (no_updates\<lparr>upd_views := Some v\<rparr>) q = q\<lparr>views := v, updated_at := now\<rparr>"
  by (simp add: new_row_def update_updated_at_column_def set_columns_def no_updates_def)

lemma read_select_row:
  assumes "read_select c user i d = Inr p"
  shows "p \<in> set (products d) \<and> pid p = i \<and> permits c (products_select_using c p)
       \<and> (status p = ''active'' \<or> user = Some (user_id p))"
proof -
  from assms have "select_by_id c i d = [p]"
    by (auto simp: read_select_def split: sum.splits option.splits if_splits elim: maybeSingle.elims)
  then have "p \<in> set (select_by_id c i d)" by simp
  then have "p \<in> set (products d) \<and> pid p = i \<and> permits c (products_select_using c p)"
    by (auto simp: select_by_id_def select_products_def matches_def)
  moreover from assms have "status p = ''active'' \<or> user = Some (user_id p)"
    by (auto simp: read_select_def split: sum.splits option.splits if_splits)
  ultimately show ?thesis by simp
qed

lemma read_select_consistent:
  assumes "distinct (map pid (products d))" "p \<in> set (products d)"
    "permits c (products_select_using c p)" "status p = ''active'' \<or> user = Some (user_id p)"
  shows "read_select c user (pid p) d = Inr p"
  using assms(3,4) by (auto simp: read_select_def select_by_id_consistent [OF assms(1,2)])

lemma read_update_consistent:
  assumes c: "consistent d" and p: "p \<in> set (products d)"
    and u: "permits c (products_update_using c p)" and v: "views p + 1 < 2 ^ 31"
  shows "read_update c now (pid p) p d
           = d\<lparr>products := map (\<lambda>q. if q = p then bump now p else q) (products d)\<rparr>"
proof -
  let ?u = "no_updates\<lparr>upd_views := Some (views p + 1)\<rparr>"
  let ?target = "\<lambda>q. matches no_ilike [Eq_id (pid p)] q \<and> permits c (products_update_using c q)"
  let ?rows = "map (\<lambda>q. if ?target q then new_row now ?u q else q) (products d)"
  let ?rows' = "map (\<lambda>q. if q = p then bump now p else q) (products d)"
  from c have dist: "distinct (map pid (products d))" by (simp add: consistent_def)
  have t: "?target q \<longleftrightarrow> q = p" if "q \<in> set (products d)" for q
    using that u p dist by (auto simp: matches_def dest: pid_unique)
  have rows: "?rows = ?rows'"
    by (rule map_cong) (auto simp: t views_new_row bump_def)
  have "filter ?target (products d) = filter (\<lambda>q. q = p) (products d)"
    by (rule filter_cong) (auto simp: t)
  also have "\<dots> = [p]"
    using dist p by (intro filter_eq_single) (auto simp: distinct_map)
  finally have new: "map (new_row now ?u) (filter ?target (products d)) = [bump now p]"
    by (simp add: views_new_row bump_def)
  have pids: "map pid ?rows' = map pid (products d)"
    by (simp add: comp_def bump_def if_distrib cong: if_cong)
  have "filter (\<lambda>q. pid q = pid p) ?rows' = [bump now p]"
  proof -
    have "distinct (map pid ?rows')" unfolding pids by (rule dist)
    moreover have "bump now p \<in> set ?rows'" using p by force
    ultimately have "filter (\<lambda>q. pid q = pid (bump now p)) ?rows' = [bump now p]"
      by (rule filter_pid)
    then show ?thesis by (simp add: bump_def)
  qed
  then have uniq: "length (filter (\<lambda>q. pid q = pid (bump now p)) ?rows') = 1"
    by (simp add: bump_def)
  from c p have ok: "products_check p" "in_range p" "products_fkey d p"
    by (auto simp: consistent_def list_all_iff)
  have viol: "row_violation (permits c (products_update_check c (bump now p))) d ?rows' (bump now p) = None"
    unfolding row_violation_def using ok u v uniq
    by (simp add: bump_def in_range_def products_check_def products_fkey_def
        products_update_check_def products_update_using_def)
  have "pid ` set ?rows' = pid ` set (products d)"
    using pids by (metis list.set_map)
  with c have img: "list_all (\<lambda>i. product_id i \<in> pid ` set ?rows') (product_images d)"
    by (simp add: consistent_def)
  have "update_products c now ?u [Eq_id (pid p)] d = Inr ([bump now p], d\<lparr>products := ?rows'\<rparr>)"
    unfolding update_products_def Let_def new rows
    using viol img by (simp add: no_updates_def)
  then show ?thesis by (simp add: read_update_def)
qed

lemma bump_consistent:
  assumes c: "consistent d" and p: "p \<in> set (products d)" and v: "views p + 1 < 2 ^ 31"
  shows "consistent (d\<lparr>products := map (\<lambda>q. if q = p then bump now p else q) (products d)\<rparr>)"
proof -
  let ?rows' = "map (\<lambda>q. if q = p then bump now p else q) (products d)"
  have pids: "map pid ?rows' = map pid (products d)"
    by (simp add: comp_def bump_def if_distrib cong: if_cong)
  have 1: "distinct (map pid ?rows')"
    unfolding pids using c by (simp add: consistent_def)
  have img: "pid ` set ?rows' = pid ` set (products d)"
    using pids by (metis list.set_map)
  have 3: "list_all (\<lambda>i. product_id i \<in> pid ` set ?rows') (product_images d)"
    unfolding img using c by (simp add: consistent_def)
  from c have all: "\<forall>q\<in>set (products d). products_check q \<and> in_range q \<and> products_fkey d q"
    by (simp add: consistent_def list_all_iff)
  with p have "products_check p" "in_range p" "products_fkey d p"
    by auto
  then have "products_check (bump now p) \<and> in_range (bump now p) \<and> products_fkey d (bump now p)"
    using v by (simp add: bump_def in_range_def products_check_def products_fkey_def)
  with all have 2: "\<forall>q\<in>set ?rows'. products_check q \<and> in_range q \<and> products_fkey d q"
    by auto
  have fk: "products_fkey (d\<lparr>products := ?rows'\<rparr>) q = products_fkey d q" for q
    by (simp add: products_fkey_def)
  show ?thesis
    unfolding consistent_def list_all_iff fk
    using 1 2 3 by (simp add: list_all_iff)
qed

lemma bump_policies:
  "products_select_using c (bump now p) = products_select_using c p"
  "products_update_using c (bump now p) = products_update_using c p"
  by (simp_all add: bump_def products_select_using_def products_update_using_def)

text \<open>
  Claim C7 says that every permitted read adds one to the stored view count. The handler
  sends the update, never looks at what the store answers and reports the count it read
  plus one; but the update goes through the module-level client, and the policy
  \<^verbatim>\<open>Users can update own products\<close> lets a client that is subject to row-level security
  update the rows of the user it is signed in as and no others. Whenever that client is
  not signed in as the owner of the active listing \<open>p\<close>, a read of \<open>p\<close> by anyone, the
  owner included, is answered with status 200 and the count plus one while the database
  stays as it was: the view is not counted, and nothing reports it.
\<close>

theorem view_not_stored:
  assumes "distinct (map pid (products d))" and "p \<in> set (products d)"
    and "status p = ''active''"
    and "supabase \<noteq> ServiceKey" and "auth_uid supabase \<noteq> Some (user_id p)"
  shows "get_product supabase now user (pid p) d
           = (Response 200 (Product (p\<lparr>views := views p + 1\<rparr>)), d)"
proof -
  let ?u = "no_updates\<lparr>upd_views := Some (views p + 1)\<rparr>"
  let ?target = "\<lambda>q. matches no_ilike [Eq_id (pid p)] q
                    \<and> permits supabase (products_update_using supabase q)"
  from assms(3,4) have s: "permits supabase (products_select_using supabase p)"
    by (simp add: permits_def products_select_using_def)
  from assms(3) have "status p = ''active'' \<or> user = Some (user_id p)" ..
  from read_select_consistent [OF assms(1,2) s this]
  have r: "read_select supabase user (pid p) d = Inr p" .
  have t: "\<not> ?target q" if "q \<in> set (products d)" for q
    using pid_unique [OF assms(1,2) that] assms(4,5)
    by (auto simp: matches_def permits_def products_update_using_def)
  then have none: "filter ?target (products d) = []"
    by (simp add: filter_empty_conv)
  have same: "map (\<lambda>q. if ?target q then new_row now ?u q else q) (products d) = products d"
    by (rule map_idI) (simp add: t)
  have "update_products supabase now ?u [Eq_id (pid p)] d = Inr ([], d)"
    unfolding update_products_def Let_def none same
    by (simp add: no_updates_def)
  then have "read_update supabase now (pid p) p d = d"
    by (simp add: read_update_def)
  with r show ?thesis
    by (simp add: get_product_def)
qed

theorem view_not_stored_witness:
  "lamp \<in> set (products shop) \<and> pid lamp = 2 \<and> user_id lamp = 10
   \<and> status lamp = ''active'' \<and> views lamp = 4
   \<and> get_product AnonKey 9 None 2 shop = (Response 200 (Product (lamp\<lparr>views := 5\<rparr>)), shop)
   \<and> get_product AnonKey 9 (Some 10) 2 shop
       = (Response 200 (Product (lamp\<lparr>views := 5\<rparr>)), shop)
   \<and> get_product (UserToken 11) 9 (Some 11) 2 shop
       = (Response 200 (Product (lamp\<lparr>views := 5\<rparr>)), shop)"
proof -
  have k: "distinct (map pid (products shop))" "lamp \<in> set (products shop)"
    "status lamp = ''active''" "pid lamp = 2" "user_id lamp = 10" "views lamp = 4"
    by (simp_all add: shop_defs)
  have a: "AnonKey \<noteq> ServiceKey" "auth_uid AnonKey \<noteq> Some (user_id lamp)"
    "UserToken 11 \<noteq> ServiceKey" "auth_uid (UserToken 11) \<noteq> Some (user_id lamp)"
    by (simp_all add: k(5))
  have v: "lamp\<lparr>views := views lamp + 1\<rparr> = lamp\<lparr>views := 5\<rparr>"
    by (simp add: k(6))
  show ?thesis
    using k(2-6)
      view_not_stored [OF k(1-3) a(1,2), of 9 None]
      view_not_stored [OF k(1-3) a(1,2), of 9 "Some 10"]
      view_not_stored [OF k(1-3) a(3,4), of 9 "Some 11"]
    by (simp add: v)
qed

section \<open>Reads that overlap\<close>

lemma get_product_consistent:
  assumes c: "consistent d" and p: "p \<in> set (products d)"
    and a: "status p = ''active'' \<or> user = Some (user_id p)"
    and s: "permits c (products_select_using c p)"
    and u: "permits c (products_update_using c p)" and v: "views p + 1 < 2 ^ 31"
  shows "get_product c now user (pid p) d
           = (Response 200 (Product (p\<lparr>views := views p + 1\<rparr>)),
              d\<lparr>products := map (\<lambda>q. if q = p then bump now p else q) (products d)\<rparr>)"
proof -
  from c have "distinct (map pid (products d))" by (simp add: consistent_def)
  from read_select_consistent [OF this p s a]
  show ?thesis
    by (simp add: get_product_def read_update_consistent [OF c p u v])
qed

lemma interleave_alone:
  "interleave c now user i [0, 0] ([Selecting], d) = ([Responded], snd (get_product c now user i d))"
  by (simp add: read_step_def get_product_def split: sum.splits)


text \<open>
  Claim C2 does not hold as stated: the handler writes back the count it read plus one.
  When two reads of the listing with 4 views overlap, each selecting before the other
  updates, both write 5 and one view is lost.
\<close>

theorem overlapping_reads_lose_a_view:
  "views lamp = 4
   \<and> interleave ServiceKey 9 None 2 [0, 1, 0, 1] ([Selecting, Selecting], shop)
       = ([Responded, Responded],
          shop\<lparr>products := [chair, lamp\<lparr>views := 5, updated_at := 9\<rparr>, desk]\<rparr>)"
proof -
  let ?d = "shop\<lparr>products := [chair, lamp\<lparr>views := 5, updated_at := 9\<rparr>, desk]\<rparr>"
  have v: "views lamp = 4"
    by (simp add: shop_defs)
  have s: "read_select ServiceKey None 2 shop = Inr lamp"
    by (simp add: read_select_def store_defs shop_defs)
  have u: "read_update ServiceKey 9 2 lamp shop = ?d"
    by (simp add: read_update_def store_defs shop_defs)
  have u': "read_update ServiceKey 9 2 lamp ?d = ?d"
    by (simp add: read_update_def store_defs shop_defs)
  show ?thesis
    by (simp add: read_step_def v s u u')
qed

text \<open>
  Claim C2, amended. The view count is written by the handler as the value it read plus
  one. When \<open>N\<close> permitted reads of a listing are served one after another, on a table
  that satisfies its constraints, with a module-level client that the select and update
  policies admit on the listing, and the counter stays in the range of its column, every
  read answers 200 and the listing ends with its former count plus \<open>N\<close>, the counts of
  the other listings being unchanged.
\<close>

theorem sequential_reads:
  assumes "consistent d" and "p \<in> set (products d)"
    and "status p = ''active'' \<or> user = Some (user_id p)"
    and "permits c (products_select_using c p)"
    and "permits c (products_update_using c p)"
    and "views p + int (length ts) < 2 ^ 31"
  shows "length (fst (reads c user (pid p) ts d)) = length ts
       \<and> list_all (\<lambda>r. code r = 200) (fst (reads c user (pid p) ts d))
       \<and> map views (products (snd (reads c user (pid p) ts d)))
           = map (\<lambda>q. if q = p then views p + int (length ts) else views q) (products d)"
  using assms
proof (induction ts arbitrary: d p)
  case Nil
  then show ?case by (simp cong: map_cong)
next
  case (Cons t ts)
  let ?p = "bump t p"
  let ?d = "d\<lparr>products := map (\<lambda>q. if q = p then ?p else q) (products d)\<rparr>"
  from Cons.prems have v: "views p + 1 < 2 ^ 31" by simp
  have g: "get_product c t user (pid p) d
             = (Response 200 (Product (p\<lparr>views := views p + 1\<rparr>)), ?d)"
    using Cons.prems(1-5) v by (rule get_product_consistent)
  have 1: "consistent ?d" using Cons.prems(1,2) v by (rule bump_consistent)
  have 2: "?p \<in> set (products ?d)" using Cons.prems(2) by force
  have 3: "status ?p = ''active'' \<or> user = Some (user_id ?p)"
    using Cons.prems(3) by (simp add: bump_def)
  have 4: "permits c (products_select_using c ?p)" "permits c (products_update_using c ?p)"
    using Cons.prems(4,5) by (simp_all add: bump_policies)
  have 5: "views ?p + int (length ts) < 2 ^ 31"
    using Cons.prems(6) by (simp add: bump_def)
  have i: "pid ?p = pid p" by (simp add: bump_def)
  note ih = Cons.IH [OF 1 2 3 4 5, unfolded i]
  from Cons.prems(1) have dist: "distinct (map pid (products d))" by (simp add: consistent_def)
  have other: "q \<noteq> ?p" if "q \<in> set (products d)" "q \<noteq> p" for q
    using pid_unique [OF dist Cons.prems(2) that(1)] that(2) i by auto
  have m: "map (\<lambda>q. if q = ?p then views ?p + int (length ts) else views q) (products ?d)
          = map (\<lambda>q. if q = p then views p + int (length (t # ts)) else views q) (products d)"
    by (auto simp: bump_def dest: other)
  obtain rs d2 where r: "reads c user (pid p) ts ?d = (rs, d2)"
    by (cases "reads c user (pid p) ts ?d")
  from ih have a: "length rs = length ts" "list_all (\<lambda>r. code r = 200) rs"
    "map views (products d2)
       = map (\<lambda>q. if q = ?p then views ?p + int (length ts) else views q) (products ?d)"
    unfolding r by (simp_all only: fst_conv snd_conv)
  have e: "reads c user (pid p) (t # ts) d
             = (Response 200 (Product (p\<lparr>views := views p + 1\<rparr>)) # rs, d2)"
    by (simp add: g r)
  from a(3) m have "map views (products d2)
      = map (\<lambda>q. if q = p then views p + int (length (t # ts)) else views q) (products d)"
    by (rule trans)
  with a(1,2) show ?case
    unfolding e by simp
qed

theorem sequential_reads_witness:
  "consistent shop \<and> lamp \<in> set (products shop) \<and> status lamp = ''active'' \<and> pid lamp = 2
   \<and> map views (products shop) = [0, 4, 2]
   \<and> map code (fst (reads ServiceKey None 2 [8, 9] shop)) = [200, 200]
   \<and> map views (products (snd (reads ServiceKey None 2 [8, 9] shop))) = [0, 6, 2]"
proof -
  have c: "consistent shop"
    by (simp add: consistent_def store_defs shop_defs)
  have l: "lamp \<in> set (products shop)" "status lamp = ''active''" "pid lamp = 2"
    "views lamp = 4" "views chair = 0" "views desk = 2"
    "chair \<noteq> lamp" "desk \<noteq> lamp" "products shop = [chair, lamp, desk]"
    by (simp_all add: shop_defs)
  have p: "permits ServiceKey (products_select_using ServiceKey lamp)"
    "permits ServiceKey (products_update_using ServiceKey lamp)"
    by (simp_all add: permits_def)
  have v: "views lamp + int (length [8, 9 :: nat]) < 2 ^ 31"
    by (simp add: l)
  from sequential_reads [OF c l(1) disjI1 [OF l(2)] p v, of None]
  have "length (fst (reads ServiceKey None 2 [8, 9] shop)) = 2"
    "list_all (\<lambda>r. code r = 200) (fst (reads ServiceKey None 2 [8, 9] shop))"
    "map views (products (snd (reads ServiceKey None 2 [8, 9] shop))) = [0, 6, 2]"
    by (simp_all add: l del: reads.simps)
  moreover have "map code rs = [200, 200]"
    if "length rs = 2" "list_all (\<lambda>r. code r = 200) rs" for rs :: "response list"
    using that by (cases rs; cases "tl rs") auto
  ultimately show ?thesis using c l by (simp del: reads.simps)
qed

end
